theory Spec2Isabelle
  imports Complex_Main "HOL-Library.AList" "HOL-Library.Code_Target_Numeral"
begin

section \<open>Python values used by the loaders\<close>

text \<open>
  The repository holds two scripts that load \<^verbatim>\<open>tuition_logs.csv\<close> into the table
  \<^verbatim>\<open>tuition_logs\<close>:
  \<^item> \<^verbatim>\<open>database/tuition_log_injest_script.py\<close>, which asks for confirmation and
    deletes the table's rows first (the destructive loader);
  \<^item> \<^verbatim>\<open>tuition_log_injest_script.py\<close>, which only inserts (the additive loader; the
    file ends in pasted text that is not Python, which is left out here).

  A Python \<^verbatim>\<open>str\<close> is a sequence of Unicode code points, so a string is a list of
  natural numbers here: the curly quotes the destructive loader strips are the code
  points 8220 and 8221 and have no place in an 8-bit character.
\<close>

type_synonym pystr = "nat list"

definition ustr :: "string \<Rightarrow> pystr" where
  "ustr s = map of_char s"

text \<open>
  The characters \<^verbatim>\<open>str.strip()\<close> removes when called without argument: the code points
  for which \<^verbatim>\<open>str.isspace\<close> holds.
\<close>

definition isspace :: "nat \<Rightarrow> bool" where
  "isspace c \<longleftrightarrow>
     (9 \<le> c \<and> c \<le> 13) \<or> (28 \<le> c \<and> c \<le> 32) \<or> c = 133 \<or> c = 160 \<or> c = 5760 \<or>
     (8192 \<le> c \<and> c \<le> 8202) \<or> c = 8232 \<or> c = 8233 \<or> c = 8239 \<or> c = 8287 \<or> c = 12288"

definition strip_while :: "(nat \<Rightarrow> bool) \<Rightarrow> pystr \<Rightarrow> pystr" where
  "strip_while P s = rev (dropWhile P (rev (dropWhile P s)))"

text \<open>\<^verbatim>\<open>s.strip()\<close> and \<^verbatim>\<open>s.strip(chars)\<close>.\<close>

definition py_strip :: "pystr \<Rightarrow> pystr" where
  "py_strip s = strip_while isspace s"

definition py_strip_chars :: "pystr \<Rightarrow> pystr \<Rightarrow> pystr" where
  "py_strip_chars chars s = strip_while (\<lambda>c. c \<in> set chars) s"

text \<open>\<^verbatim>\<open>s.split(sep)\<close> for a separator of one character.\<close>

fun py_split :: "nat \<Rightarrow> pystr \<Rightarrow> pystr list" where
  "py_split sep [] = [[]]"
| "py_split sep (c # cs) =
     (if c = sep then [] # py_split sep cs
      else (case py_split sep cs of [] \<Rightarrow> [[c]] | w # ws \<Rightarrow> (c # w) # ws))"

text \<open>
  \<^verbatim>\<open>s.lower()\<close> on the letters A to Z. Python lowers cased letters outside ASCII as
  well; none of them becomes y, e or s, and the loaders only compare the result with
  \<^verbatim>\<open>'yes'\<close>. The same function serves \<^verbatim>\<open>float\<close> below, which compares the words
  \<^verbatim>\<open>inf\<close>, \<^verbatim>\<open>infinity\<close> and \<^verbatim>\<open>nan\<close> without regard to the case of ASCII letters only.
\<close>

definition py_lower :: "pystr \<Rightarrow> pystr" where
  "py_lower s = map (\<lambda>c. if 65 \<le> c \<and> c \<le> 90 then c + 32 else c) s"

subsection \<open>Reading numbers\<close>

text \<open>
  \<^verbatim>\<open>int(s)\<close> and \<^verbatim>\<open>float(s)\<close> on a string, as CPython 3.11 reads them; \<open>None\<close>
  stands for \<^verbatim>\<open>ValueError\<close>. Both first turn every decimal digit of Unicode into
  its ASCII digit and every whitespace character outside ASCII into a space, then drop
  the whitespace of C's \<^verbatim>\<open>isspace\<close> at both ends: so the characters dropped are those
  of \<^verbatim>\<open>str.isspace\<close> without the four separators U+001C to U+001F.
\<close>

definition number_space :: "nat \<Rightarrow> bool" where
  "number_space c \<longleftrightarrow> isspace c \<and> \<not> (28 \<le> c \<and> c \<le> 31)"

text \<open>
  The decimal digits: 0 to 9 in ASCII, and outside ASCII the ten characters that
  follow each of these zeros (the characters of category Nd in Unicode 14.0, the
  character database of CPython 3.11).
\<close>

definition decimal_zeros :: "nat list" where
  "decimal_zeros =
     [1632, 1776, 1984, 2406, 2534, 2662, 2790, 2918, 3046, 3174, 3302, 3430, 3558, 3664,
      3792, 3872, 4160, 4240, 6112, 6160, 6470, 6608, 6784, 6800, 6992, 7088, 7232, 7248,
      42528, 43216, 43264, 43472, 43504, 43600, 44016, 65296, 66720, 68912, 69734, 69872,
      69942, 70096, 70384, 70736, 70864, 71248, 71360, 71472, 71904, 72016, 72784, 73040,
      73120, 92768, 92864, 93008, 120782, 120792, 120802, 120812, 120822, 123200, 123632,
      125264, 130032]"

definition digit_value :: "nat \<Rightarrow> nat option" where
  "digit_value c =
     (if c < 128 then (if 48 \<le> c \<and> c \<le> 57 then Some (c - 48) else None)
      else map_option (\<lambda>z. c - z) (find (\<lambda>z. z \<le> c \<and> c < z + 10) decimal_zeros))"

text \<open>
  A group of digits that single underscores may separate: an underscore is allowed
  only between two digits. The result is the list of the digits' values.
\<close>

fun digitpart :: "pystr \<Rightarrow> nat list option" where
  "digitpart [] = None"
| "digitpart [c] = map_option (\<lambda>v. [v]) (digit_value c)"
| "digitpart (c # d # cs) =
     (case digit_value c of
        None \<Rightarrow> None
      | Some v \<Rightarrow>
          if d = 95 then map_option ((#) v) (digitpart cs)
          else map_option ((#) v) (digitpart (d # cs)))"

definition decimal :: "nat list \<Rightarrow> nat" where
  "decimal ds = foldl (\<lambda>a d. 10 * a + d) 0 ds"

definition signed :: "pystr \<Rightarrow> bool \<times> pystr" where
  "signed s = (case s of [] \<Rightarrow> (False, [])
     | c # cs \<Rightarrow> if c = 45 then (True, cs) else if c = 43 then (False, cs) else (False, s))"

text \<open>
  \<^verbatim>\<open>int\<close> refuses a string of more than 4300 digits (the interpreter's default
  \<^verbatim>\<open>sys.get_int_max_str_digits()\<close>, which the scripts do not change); leading zeros
  count, underscores do not.
\<close>

definition int_max_str_digits :: nat where
  "int_max_str_digits = 4300"

definition py_int :: "pystr \<Rightarrow> int option" where
  "py_int s =
     (case signed (strip_while number_space s) of (neg, t) \<Rightarrow>
        (case digitpart t of
           None \<Rightarrow> None
         | Some ds \<Rightarrow>
             if int_max_str_digits < length ds then None
             else Some (if neg then - int (decimal ds) else int (decimal ds))))"

text \<open>
  A Python float is an IEEE double: a finite value (kept as the rational number it is),
  the negative zero, an infinity (\<open>True\<close> for the negative one) or a NaN.
\<close>

datatype pyfloat = Finite rat | Neg_zero | Infinite bool | NaN

text \<open>
  The double nearest to a non-negative rational, ties going to the even significand:
  \<open>binade q\<close> is the exponent \<open>e\<close> with \<open>2 ^ e \<le> q < 2 ^ (e + 1)\<close>, a double has 53 bits
  of significand and no bit below \<open>2 ^ - 1074\<close>, and a result of \<open>2 ^ 1024\<close> or more is
  an infinity. The sign is kept, also on a zero.
\<close>

fun bit_length :: "nat \<Rightarrow> nat" where
  "bit_length n = (if n = 0 then 0 else Suc (bit_length (n div 2)))"

declare bit_length.simps [simp del]

definition pow2 :: "int \<Rightarrow> rat" where
  "pow2 k = (if 0 \<le> k then 2 ^ nat k else 1 / 2 ^ nat (- k))"

definition binade :: "rat \<Rightarrow> int" where
  "binade q =
     (if 1 \<le> q then int (bit_length (nat \<lfloor>q\<rfloor>)) - 1
      else - int (bit_length (nat (\<lceil>1 / q\<rceil> - 1))))"

definition round_half_even :: "rat \<Rightarrow> int" where
  "round_half_even m =
     (let n = \<lfloor>m\<rfloor>; fr = m - of_int n
      in if 1 / 2 < fr \<or> (fr = 1 / 2 \<and> odd n) then n + 1 else n)"

definition round_double :: "rat \<Rightarrow> rat" where
  "round_double q =
     (if q = 0 then 0
      else (let u = max (binade q - 52) (- 1074)
            in of_int (round_half_even (q / pow2 u)) * pow2 u))"

definition to_double :: "bool \<Rightarrow> rat \<Rightarrow> pyfloat" where
  "to_double neg q =
     (let r = round_double q
      in if pow2 1024 \<le> r then Infinite neg
         else if r = 0 then (if neg then Neg_zero else Finite 0)
         else Finite (if neg then - r else r))"

text \<open>
  The text of a float: digits with an optional point and an optional exponent, or
  \<^verbatim>\<open>inf\<close>, \<^verbatim>\<open>infinity\<close> or \<^verbatim>\<open>nan\<close> in any letter case, after an optional sign.
  \<open>floatnumber\<close> gives the exact value of the decimal that is written.
\<close>

definition exponent :: "pystr \<Rightarrow> int option" where
  "exponent s =
     (case signed s of (neg, t) \<Rightarrow>
        map_option (\<lambda>ds. if neg then - int (decimal ds) else int (decimal ds)) (digitpart t))"

definition scale10 :: "nat \<Rightarrow> int \<Rightarrow> rat" where
  "scale10 m e = (if 0 \<le> e then of_nat m * 10 ^ nat e else of_nat m / 10 ^ nat (- e))"

definition floatnumber :: "pystr \<Rightarrow> rat option" where
  "floatnumber s =
     (let is_e = (\<lambda>c. c = 101 \<or> c = 69);
          mant = takeWhile (\<lambda>c. \<not> is_e c) s;
          rest = dropWhile (\<lambda>c. \<not> is_e c) s;
          ex = (if rest = [] then Some 0 else exponent (tl rest));
          ip = takeWhile (\<lambda>c. c \<noteq> 46) mant;
          dot = dropWhile (\<lambda>c. c \<noteq> 46) mant;
          digits =
            (if dot = [] then map_option (\<lambda>i. (i, [])) (digitpart ip)
             else if ip = [] then map_option (\<lambda>f. ([], f)) (digitpart (tl dot))
             else if tl dot = [] then map_option (\<lambda>i. (i, [])) (digitpart ip)
             else (case (digitpart ip, digitpart (tl dot)) of
                     (Some i, Some f) \<Rightarrow> Some (i, f)
                   | _ \<Rightarrow> None))
      in case (digits, ex) of
           (Some (i, f), Some e) \<Rightarrow> Some (scale10 (decimal (i @ f)) (e - int (length f)))
         | _ \<Rightarrow> None)"

definition py_float :: "pystr \<Rightarrow> pyfloat option" where
  "py_float s =
     (case signed (strip_while number_space s) of (neg, t) \<Rightarrow>
        if py_lower t = ustr ''inf'' \<or> py_lower t = ustr ''infinity'' then Some (Infinite neg)
        else if py_lower t = ustr ''nan'' then Some NaN
        else map_option (to_double neg) (floatnumber t))"

section \<open>Rows, records and the database connection\<close>

text \<open>
  A row as \<^verbatim>\<open>csv.DictReader\<close> yields it: a dictionary from the header's names to the
  row's fields. A field is a string, or \<^verbatim>\<open>None\<close> when the line has fewer fields than
  the header (the reader fills the missing ones with \<^verbatim>\<open>None\<close>). A name that the header
  does not have is no key of the dictionary.
\<close>

datatype cell = Text pystr | NoneVal

type_synonym row = "pystr \<rightharpoonup> cell"

text \<open>The parameters of one \<^verbatim>\<open>INSERT INTO tuition_logs\<close>, in the order of the statement.\<close>

record tuition_log =
  parent_user_id :: pystr
  subject :: cell
  attendee_names :: "pystr list"
  lesson_index :: "int option"
  cost_per_hour :: pyfloat
  start_time :: pystr
  end_time :: pystr

text \<open>
  A row of \<^verbatim>\<open>SELECT id, user_id, first_name FROM students\<close>. The two identifiers are
  held as the text \<^verbatim>\<open>str\<close> gives for them; the first name is a column value, so it
  may be \<^verbatim>\<open>None\<close>.
\<close>

record student =
  student_id :: pystr
  user_id :: pystr
  first_name :: cell

record database =
  students :: "student list"
  tuition_logs :: "tuition_log list"

datatype exn =
    KeyError pystr
  | ValueError
  | AttributeError
  | TypeError
  | IndexError
  | Psycopg2Error
  | FileNotFoundError

datatype stmt = DeleteAll | SelectStudents | InsertLog tuition_log

text \<open>What the scripts print, one constructor for each \<^verbatim>\<open>print\<close> of the source.\<close>

datatype msg =
    Msg_no_url
  | Msg_erase_warning
  | Msg_cancelled
  | Msg_erasing
  | Msg_cleared
  | Msg_fetching
  | Msg_found nat
  | Msg_reading
  | Msg_names "pystr list"
  | Msg_skip_not_found pystr
  | Msg_inserting cell cell "pystr list"
  | Msg_skip_invalid exn
  | Msg_success
  | Msg_database_error
  | Msg_file_error

datatype event = Print msg | Connect | Execute stmt | Commit | Rollback | Close

text \<open>
  What a run is given from outside: the connection string of the environment, the line
  the operator types at the prompt, the rows of the CSV file (\<open>None\<close>: the file does
  not exist), and which calls to the database fail: \<open>db_fault k\<close> says that the call
  number \<open>k\<close> of the run (\<^verbatim>\<open>connect\<close>, \<^verbatim>\<open>execute\<close> or \<^verbatim>\<open>commit\<close>, counted from 0)
  raises \<^verbatim>\<open>psycopg2.Error\<close>.
\<close>

record env =
  DATABASE_URL :: "pystr option"
  confirm_input :: pystr
  csv_file :: "row list option"
  db_fault :: "nat \<Rightarrow> bool"

text \<open>
  The state of a run: \<open>stored\<close> is the committed content of \<^verbatim>\<open>tuition_logs\<close>,
  \<open>pending\<close> the content the open transaction sees, \<open>calls\<close> the number of database
  calls made so far, \<open>trace\<close> what has been printed and called.
\<close>

record run_state =
  stored :: "tuition_log list"
  pending :: "tuition_log list"
  calls :: nat
  trace :: "event list"

definition say :: "msg \<Rightarrow> run_state \<Rightarrow> run_state" where
  "say m s = s\<lparr>trace := trace s @ [Print m]\<rparr>"

definition connect :: "env \<Rightarrow> run_state \<Rightarrow> exn option \<times> run_state" where
  "connect e s =
     (let s' = s\<lparr>calls := Suc (calls s), trace := trace s @ [Connect]\<rparr>
      in if db_fault e (calls s) then (Some Psycopg2Error, s')
         else (None, s'\<lparr>pending := stored s\<rparr>))"

definition execute :: "env \<Rightarrow> stmt \<Rightarrow> run_state \<Rightarrow> exn option \<times> run_state" where
  "execute e q s =
     (let s' = s\<lparr>calls := Suc (calls s), trace := trace s @ [Execute q]\<rparr>
      in if db_fault e (calls s) then (Some Psycopg2Error, s')
         else (None, s'\<lparr>pending :=
                 (case q of DeleteAll \<Rightarrow> []
                  | SelectStudents \<Rightarrow> pending s
                  | InsertLog x \<Rightarrow> pending s @ [x])\<rparr>))"

definition commit :: "env \<Rightarrow> run_state \<Rightarrow> exn option \<times> run_state" where
  "commit e s =
     (let s' = s\<lparr>calls := Suc (calls s), trace := trace s @ [Commit]\<rparr>
      in if db_fault e (calls s) then (Some Psycopg2Error, s')
         else (None, s'\<lparr>stored := pending s\<rparr>))"

text \<open>Rolling back and closing both drop what the transaction has not committed.\<close>

definition rollback :: "run_state \<Rightarrow> run_state" where
  "rollback s = s\<lparr>pending := stored s, trace := trace s @ [Rollback]\<rparr>"

definition close :: "run_state \<Rightarrow> run_state" where
  "close s = s\<lparr>pending := stored s, trace := trace s @ [Close]\<rparr>"

section \<open>The lookup builder\<close>

text \<open>
  A Python dictionary keeps its keys in the order of their first insertion, and a
  second assignment to a key replaces the value where it stands: this is
  \<^const>\<open>AList.update\<close> on an association list. \<^verbatim>\<open>len\<close> is the length of the list
  and \<^verbatim>\<open>in\<close> is \<^const>\<open>map_of\<close>.
\<close>

type_synonym student_map = "(cell \<times> (pystr \<times> pystr)) list"

definition build_student_map :: "student list \<Rightarrow> student_map" where
  "build_student_map rows =
     foldl (\<lambda>m r. AList.update (first_name r) (student_id r, user_id r) m) [] rows"

definition get_student_parent_map ::
  "env \<Rightarrow> database \<Rightarrow> run_state \<Rightarrow> (exn + student_map) \<times> run_state" where
  "get_student_parent_map e db s =
     (case execute e SelectStudents (say Msg_fetching s) of
        (Some x, s1) \<Rightarrow> (Inl x, s1)
      | (None, s1) \<Rightarrow>
          (let student_map = build_student_map (students db)
           in (Inr student_map, say (Msg_found (length student_map)) s1)))"

section \<open>One row of the CSV file\<close>

definition k_date :: pystr where "k_date = ustr ''date''"
definition k_start_time :: pystr where "k_start_time = ustr ''start_time''"
definition k_end_time :: pystr where "k_end_time = ustr ''end_time''"
definition k_subject :: pystr where "k_subject = ustr ''subject''"
definition k_attendees :: pystr where "k_attendees = ustr ''attendees''"
definition k_cost_per_hour :: pystr where "k_cost_per_hour = ustr ''cost_per_hour''"
definition k_lesson_index :: pystr where "k_lesson_index = ustr ''lesson_index''"

text \<open>\<^verbatim>\<open>row[k]\<close>, and the text an f-string puts for a field.\<close>

definition getitem :: "row \<Rightarrow> pystr \<Rightarrow> exn + cell" where
  "getitem r k = (case r k of None \<Rightarrow> Inl (KeyError k) | Some v \<Rightarrow> Inr v)"

definition fmt :: "cell \<Rightarrow> pystr" where
  "fmt v = (case v of Text s \<Rightarrow> s | NoneVal \<Rightarrow> ustr ''None'')"

text \<open>
  The two loaders clean a name differently: the destructive one has
  \<^verbatim>\<open>name.strip().strip('\<dots>')\<close> with the two curly double quotes as the characters
  to strip, the additive one has \<^verbatim>\<open>name.strip()\<close> alone. The flag says which loader runs.
\<close>

definition clean_name :: "bool \<Rightarrow> pystr \<Rightarrow> pystr" where
  "clean_name destructive name =
     (if destructive then py_strip_chars [8220, 8221] (py_strip name) else py_strip name)"

definition attendee_names_of :: "bool \<Rightarrow> row \<Rightarrow> exn + pystr list" where
  "attendee_names_of destructive r =
     (case getitem r k_attendees of
        Inl x \<Rightarrow> Inl x
      | Inr NoneVal \<Rightarrow> Inl AttributeError
      | Inr (Text s) \<Rightarrow> Inr (map (clean_name destructive) (py_split 44 s)))"

definition times_of :: "row \<Rightarrow> exn + (pystr \<times> pystr)" where
  "times_of r =
     (case getitem r k_date of Inl x \<Rightarrow> Inl x | Inr d \<Rightarrow>
      case getitem r k_start_time of Inl x \<Rightarrow> Inl x | Inr st \<Rightarrow>
      case getitem r k_end_time of Inl x \<Rightarrow> Inl x | Inr et \<Rightarrow>
        Inr (fmt d @ [32] @ fmt st, fmt d @ [32] @ fmt et))"

text \<open>
  \<^verbatim>\<open>int(row['lesson_index']) if row.get('lesson_index') else None\<close>: \<^verbatim>\<open>get\<close> gives
  \<^verbatim>\<open>None\<close> for a missing key, and \<^verbatim>\<open>None\<close> and the empty string count as false.
\<close>

definition lesson_index_of :: "row \<Rightarrow> exn + int option" where
  "lesson_index_of r =
     (case r k_lesson_index of
        None \<Rightarrow> Inr None
      | Some NoneVal \<Rightarrow> Inr None
      | Some (Text s) \<Rightarrow>
          if s = [] then Inr None
          else (case py_int s of None \<Rightarrow> Inl ValueError | Some n \<Rightarrow> Inr (Some n)))"

text \<open>\<^verbatim>\<open>float(row['cost_per_hour'])\<close>; \<^verbatim>\<open>float(None)\<close> raises \<^verbatim>\<open>TypeError\<close>.\<close>

definition cost_of :: "row \<Rightarrow> exn + pyfloat" where
  "cost_of r =
     (case getitem r k_cost_per_hour of
        Inl x \<Rightarrow> Inl x
      | Inr NoneVal \<Rightarrow> Inl TypeError
      | Inr (Text s) \<Rightarrow> (case py_float s of None \<Rightarrow> Inl ValueError | Some c \<Rightarrow> Inr c))"

text \<open>
  The body of the inner \<^verbatim>\<open>try\<close>, statement by statement. The result is the exception
  that leaves the body, if any, and the state reached. Only the destructive loader
  prints the list of names. A row whose first name is not in the map ends the body
  without an exception (\<^verbatim>\<open>continue\<close>).
\<close>

definition row_body ::
  "bool \<Rightarrow> env \<Rightarrow> student_map \<Rightarrow> row \<Rightarrow> run_state \<Rightarrow> exn option \<times> run_state" where
  "row_body destructive e student_parent_map r s =
     (case attendee_names_of destructive r of
        Inl x \<Rightarrow> (Some x, s)
      | Inr names \<Rightarrow>
          (let s1 = (if destructive then say (Msg_names names) s else s)
           in case names of
                [] \<Rightarrow> (Some IndexError, s1)
              | first_student_name # _ \<Rightarrow>
                  (case map_of student_parent_map (Text first_student_name) of
                     None \<Rightarrow> (None, say (Msg_skip_not_found first_student_name) s1)
                   | Some (_, parent) \<Rightarrow>
                       (case times_of r of Inl x \<Rightarrow> (Some x, s1) | Inr (st, et) \<Rightarrow>
                        case lesson_index_of r of Inl x \<Rightarrow> (Some x, s1) | Inr li \<Rightarrow>
                        case getitem r k_subject of Inl x \<Rightarrow> (Some x, s1) | Inr sj \<Rightarrow>
                        case getitem r k_date of Inl x \<Rightarrow> (Some x, s1) | Inr d \<Rightarrow>
                          (let s2 = say (Msg_inserting sj d names) s1
                           in case getitem r k_subject of Inl x \<Rightarrow> (Some x, s2) | Inr sj' \<Rightarrow>
                              case cost_of r of Inl x \<Rightarrow> (Some x, s2) | Inr c \<Rightarrow>
                                execute e
                                  (InsertLog \<lparr>parent_user_id = parent, subject = sj',
                                     attendee_names = names, lesson_index = li,
                                     cost_per_hour = c, start_time = st, end_time = et\<rparr>)
                                  s2)))))"

text \<open>
  The inner \<^verbatim>\<open>try\<close> with its handler: \<^verbatim>\<open>KeyError\<close> and \<^verbatim>\<open>ValueError\<close> are reported
  and the loop goes on; every other exception leaves the loop.
\<close>

definition process_row ::
  "bool \<Rightarrow> env \<Rightarrow> student_map \<Rightarrow> row \<Rightarrow> run_state \<Rightarrow> exn option \<times> run_state" where
  "process_row destructive e student_parent_map r s =
     (case row_body destructive e student_parent_map r s of
        (Some (KeyError k), s') \<Rightarrow> (None, say (Msg_skip_invalid (KeyError k)) s')
      | (Some ValueError, s') \<Rightarrow> (None, say (Msg_skip_invalid ValueError) s')
      | res \<Rightarrow> res)"

fun process_rows ::
  "bool \<Rightarrow> env \<Rightarrow> student_map \<Rightarrow> row list \<Rightarrow> run_state \<Rightarrow> exn option \<times> run_state" where
  "process_rows destructive e student_parent_map [] s = (None, s)"
| "process_rows destructive e student_parent_map (r # rs) s =
     (case process_row destructive e student_parent_map r s of
        (None, s') \<Rightarrow> process_rows destructive e student_parent_map rs s'
      | (Some x, s') \<Rightarrow> (Some x, s'))"

section \<open>The two loaders\<close>

text \<open>
  What both \<^verbatim>\<open>main\<close> functions do from the call of \<^verbatim>\<open>get_student_parent_map\<close> to the
  end of the outer \<^verbatim>\<open>try\<close> body: build the map, open the file, run the loop, commit.
\<close>

definition load_csv :: "bool \<Rightarrow> env \<Rightarrow> database \<Rightarrow> run_state \<Rightarrow> exn option \<times> run_state" where
  "load_csv destructive e db s =
     (case get_student_parent_map e db s of
        (Inl x, s1) \<Rightarrow> (Some x, s1)
      | (Inr student_parent_map, s1) \<Rightarrow>
          (let s2 = say Msg_reading s1
           in case csv_file e of
                None \<Rightarrow> (Some FileNotFoundError, s2)
              | Some rows \<Rightarrow>
                  (case process_rows destructive e student_parent_map rows s2 of
                     (Some x, s3) \<Rightarrow> (Some x, s3)
                   | (None, s3) \<Rightarrow>
                       (case commit e s3 of
                          (Some x, s4) \<Rightarrow> (Some x, s4)
                        | (None, s4) \<Rightarrow> (None, say Msg_success s4)))))"

datatype outcome = Completed | Declined | Unconfigured | Database_error | File_error | Uncaught exn

text \<open>
  The handlers of the outer \<^verbatim>\<open>try\<close> once the connection exists: \<^verbatim>\<open>psycopg2.Error\<close> is
  reported and rolled back, \<^verbatim>\<open>FileNotFoundError\<close> is reported, any other exception
  leaves \<^verbatim>\<open>main\<close>; \<^verbatim>\<open>finally\<close> closes the connection in every case.
\<close>

definition finish :: "exn option \<times> run_state \<Rightarrow> outcome \<times> run_state" where
  "finish res =
     (case res of
        (None, s) \<Rightarrow> (Completed, close s)
      | (Some Psycopg2Error, s) \<Rightarrow> (Database_error, close (rollback (say Msg_database_error s)))
      | (Some FileNotFoundError, s) \<Rightarrow> (File_error, close (say Msg_file_error s))
      | (Some x, s) \<Rightarrow> (Uncaught x, close s))"

record result =
  outcome :: outcome
  db_after :: database
  calls_made :: nat
  events :: "event list"

definition start :: "database \<Rightarrow> run_state" where
  "start db = \<lparr>stored = tuition_logs db, pending = tuition_logs db, calls = 0, trace = []\<rparr>"

definition report :: "database \<Rightarrow> outcome \<times> run_state \<Rightarrow> result" where
  "report db res =
     (case res of (oc, s) \<Rightarrow>
        \<lparr>outcome = oc, db_after = db\<lparr>tuition_logs := stored s\<rparr>,
         calls_made = calls s, events = trace s\<rparr>)"

definition url_missing :: "env \<Rightarrow> bool" where
  "url_missing e \<longleftrightarrow> DATABASE_URL e = None \<or> DATABASE_URL e = Some []"

text \<open>
  The destructive loader's \<^verbatim>\<open>with conn.cursor()\<close> block and the commit after it: the
  \<^verbatim>\<open>DELETE\<close> first, then the steps it shares with the additive loader.
\<close>

definition erase_and_load :: "env \<Rightarrow> database \<Rightarrow> run_state \<Rightarrow> exn option \<times> run_state" where
  "erase_and_load e db s2 =
     (case execute e DeleteAll (say Msg_erasing s2) of
        (Some x, s3) \<Rightarrow> (Some x, s3)
      | (None, s3) \<Rightarrow> load_csv True e db (say Msg_cleared s3))"

text \<open>\<^verbatim>\<open>main\<close> of \<^verbatim>\<open>database/tuition_log_injest_script.py\<close>.\<close>

definition main_destructive :: "env \<Rightarrow> database \<Rightarrow> result" where
  "main_destructive e db =
     (if url_missing e then report db (Unconfigured, say Msg_no_url (start db))
      else
        (let s1 = say Msg_erase_warning (start db)
         in if py_lower (confirm_input e) \<noteq> ustr ''yes''
            then report db (Declined, say Msg_cancelled s1)
            else
              (case connect e s1 of
                 (Some x, s2) \<Rightarrow> report db (Database_error, say Msg_database_error s2)
               | (None, s2) \<Rightarrow> report db (finish (erase_and_load e db s2)))))"

text \<open>\<^verbatim>\<open>main\<close> of \<^verbatim>\<open>tuition_log_injest_script.py\<close>.\<close>

definition main_additive :: "env \<Rightarrow> database \<Rightarrow> result" where
  "main_additive e db =
     (if url_missing e then report db (Unconfigured, say Msg_no_url (start db))
      else
        (case connect e (start db) of
           (Some x, s2) \<Rightarrow> report db (Database_error, say Msg_database_error s2)
         | (None, s2) \<Rightarrow> report db (finish (load_csv False e db s2))))"

section \<open>Example inputs\<close>

text \<open>
  The first two data lines of the example file in the destructive loader's docstring,
  as \<^verbatim>\<open>csv.DictReader\<close> delivers them (the reader removes the straight quotes
  around a field), a student table and an environment in which nothing fails.
\<close>

definition mila :: pystr where "mila = ustr ''Mila''"
definition omran :: pystr where "omran = ustr ''Omran''"

definition example_row :: row where
  "example_row = map_of
     [(k_date, Text (ustr ''2025-09-04'')), (k_start_time, Text (ustr ''10:00'')),
      (k_end_time, Text (ustr ''11:30'')), (k_subject, Text (ustr ''Math'')),
      (k_attendees, Text (ustr ''Mila'')), (k_cost_per_hour, Text (ustr ''60.00'')),
      (k_lesson_index, Text (ustr ''1''))]"

definition example_row2 :: row where
  "example_row2 = map_of
     [(k_date, Text (ustr ''2025-09-01'')), (k_start_time, Text (ustr ''19:00'')),
      (k_end_time, Text (ustr ''20:00'')), (k_subject, Text (ustr ''Physics'')),
      (k_attendees, Text (ustr ''Mila,Omran'')), (k_cost_per_hour, Text (ustr ''60.00'')),
      (k_lesson_index, Text (ustr ''1''))]"

definition example_log :: "pystr \<Rightarrow> tuition_log" where
  "example_log gid =
     \<lparr>parent_user_id = gid, subject = Text (ustr ''Math''), attendee_names = [mila],
      lesson_index = Some 1, cost_per_hour = Finite 60,
      start_time = ustr ''2025-09-04 10:00'', end_time = ustr ''2025-09-04 11:30''\<rparr>"

definition example_students :: "student list" where
  "example_students =
     [\<lparr>student_id = ustr ''s1'', user_id = ustr ''g1'', first_name = Text mila\<rparr>,
      \<lparr>student_id = ustr ''s2'', user_id = ustr ''g2'', first_name = Text omran\<rparr>]"

definition old_log :: tuition_log where
  "old_log =
     \<lparr>parent_user_id = ustr ''g2'', subject = Text (ustr ''Chemistry''),
      attendee_names = [omran], lesson_index = None, cost_per_hour = Finite 55,
      start_time = ustr ''2025-08-01 17:00'', end_time = ustr ''2025-08-01 18:00''\<rparr>"

definition example_db :: database where
  "example_db = \<lparr>students = example_students, tuition_logs = [old_log]\<rparr>"

definition no_fault :: "nat \<Rightarrow> bool" where
  "no_fault k \<longleftrightarrow> False"

definition fault_at :: "nat \<Rightarrow> nat \<Rightarrow> bool" where
  "fault_at n k \<longleftrightarrow> k = n"

definition example_env :: env where
  "example_env =
     \<lparr>DATABASE_URL = Some (ustr ''postgresql://localhost/tutor''), confirm_input = ustr ''yes'',
      csv_file = Some [example_row], db_fault = no_fault\<rparr>"

section \<open>Notions used in the statements\<close>

text \<open>No database call made so far has failed.\<close>

definition clean :: "env \<Rightarrow> run_state \<Rightarrow> bool" where
  "clean e s \<longleftrightarrow> (\<forall>k < calls s. \<not> db_fault e k)"

text \<open>
  The inputs the confirmation accepts: \<^verbatim>\<open>confirm.lower() != 'yes'\<close> lets the word yes
  through in every mix of upper and lower case, and nothing else.
\<close>

definition affirmative :: "pystr list" where
  "affirmative = map ustr [''yes'', ''yeS'', ''yEs'', ''yES'', ''Yes'', ''YeS'', ''YEs'', ''YES'']"

text \<open>
  What a row that is inserted does to the state: the record joins the transaction's
  view of the table, one database call is made, and the trace gains the prints of the
  row and the \<^verbatim>\<open>INSERT\<close>; no exception leaves the row.
\<close>

definition row_inserted :: "bool \<Rightarrow> cell \<Rightarrow> tuition_log \<Rightarrow> run_state \<Rightarrow> exn option \<times> run_state" where
  "row_inserted destructive dt x s =
     (None, s\<lparr>pending := pending s @ [x], calls := Suc (calls s),
        trace := trace s @ (if destructive then [Print (Msg_names (attendee_names x))] else []) @
          [Print (Msg_inserting (subject x) dt (attendee_names x)), Execute (InsertLog x)]\<rparr>)"

text \<open>
  \<^verbatim>\<open>str(n)\<close> for an integer: the text of an integer literal.
\<close>

fun digits_of :: "nat \<Rightarrow> nat list" where
  "digits_of n = (if n < 10 then [n] else digits_of (n div 10) @ [n mod 10])"

definition py_str_int :: "int \<Rightarrow> pystr" where
  "py_str_int n =
     (if n < 0 then 45 # map (\<lambda>d. d + 48) (digits_of (nat (- n)))
      else map (\<lambda>d. d + 48) (digits_of (nat n)))"

declare digits_of.simps [simp del]

text \<open>
  The example row with the literal of \<open>10 ^ 4300\<close> as its lesson index: a one and 4300
  zeros, one digit more than \<^verbatim>\<open>int\<close> accepts.
\<close>

definition long_literal_row :: row where
  "long_literal_row = example_row(k_lesson_index \<mapsto> Text (py_str_int (10 ^ int_max_str_digits)))"

text \<open>A lookup map in which only Mila resolves, and the example row without its lesson index.\<close>

definition mila_only :: student_map where
  "mila_only = [(Text mila, (ustr ''s1'', ustr ''g1''))]"

definition row_without_lesson :: row where
  "row_without_lesson = example_row(k_lesson_index := None)"

text \<open>A student table in which two records have the first name Mila.\<close>

definition duplicate_students :: "student list" where
  "duplicate_students =
     [\<lparr>student_id = ustr ''s1'', user_id = ustr ''g1'', first_name = Text mila\<rparr>,
      \<lparr>student_id = ustr ''s2'', user_id = ustr ''g2'', first_name = Text omran\<rparr>,
      \<lparr>student_id = ustr ''s3'', user_id = ustr ''g3'', first_name = Text mila\<rparr>]"

text \<open>
  Rows and maps for the edge cases: a student whose first name is the empty string and
  a row whose attendees field is empty; a line that ends after the subject, so that
  the reader fills the last three fields with \<^verbatim>\<open>None\<close>; a row whose cost is
  \<^verbatim>\<open>None\<close>; a row whose attendee is written between curly quotes.
\<close>

definition blank_map :: student_map where
  "blank_map = [(Text [], (ustr ''s0'', ustr ''g0''))]"

definition blank_row :: row where
  "blank_row = example_row(k_attendees \<mapsto> Text [])"

definition blank_log :: tuition_log where
  "blank_log = (example_log (ustr ''g0''))\<lparr>attendee_names := [[]]\<rparr>"

definition short_row :: row where
  "short_row = map_of
     [(k_date, Text (ustr ''2025-09-04'')), (k_start_time, Text (ustr ''10:00'')),
      (k_end_time, Text (ustr ''11:30'')), (k_subject, Text (ustr ''Math'')),
      (k_attendees, NoneVal), (k_cost_per_hour, NoneVal), (k_lesson_index, NoneVal)]"

definition no_cost_row :: row where
  "no_cost_row = example_row(k_cost_per_hour \<mapsto> NoneVal, k_lesson_index \<mapsto> NoneVal)"

definition curly_mila :: pystr where
  "curly_mila = [8220] @ mila @ [8221]"

definition curly_row :: row where
  "curly_row = example_row(k_attendees \<mapsto> Text curly_mila)"

section \<open>Properties of the steps\<close>

lemma py_split_not_Nil: "py_split sep s \<noteq> []"
  by (induction s) (auto split: list.splits)

lemma attendee_names_of_not_Nil: "attendee_names_of d r \<noteq> Inr []"
  by (auto simp: attendee_names_of_def py_split_not_Nil split: sum.splits cell.splits)

lemma say_simps [simp]:
  "stored (say m s) = stored s" "pending (say m s) = pending s"
  "calls (say m s) = calls s" "trace (say m s) = trace s @ [Print m]"
  by (simp_all add: say_def)

lemma clean_say [simp]: "clean e (say m s) = clean e s"
  by (simp add: clean_def)

lemma execute_stored: "execute e q s = (x, s') \<Longrightarrow> stored s' = stored s"
  by (auto simp: execute_def Let_def split: if_splits)

lemma execute_exn: "execute e q s = (Some x, s') \<Longrightarrow> x = Psycopg2Error"
  by (auto simp: execute_def Let_def split: if_splits)

lemma execute_clean: "execute e q s = (x, s') \<Longrightarrow> x \<noteq> Some Psycopg2Error \<Longrightarrow> clean e s \<Longrightarrow> clean e s'"
  by (auto simp: execute_def Let_def clean_def less_Suc_eq split: if_splits)

lemma row_body_stored: "row_body d e m r s = (x, s') \<Longrightarrow> stored s' = stored s"
  unfolding row_body_def Let_def
  by (auto split: sum.splits list.splits option.splits prod.splits if_splits dest: execute_stored)

lemma row_body_clean:
  "row_body d e m r s = (x, s') \<Longrightarrow> x \<noteq> Some Psycopg2Error \<Longrightarrow> clean e s \<Longrightarrow> clean e s'"
  unfolding row_body_def Let_def
  by (auto split: sum.splits list.splits option.splits prod.splits if_splits dest: execute_clean)

lemma process_row_stored: "process_row d e m r s = (x, s') \<Longrightarrow> stored s' = stored s"
  unfolding process_row_def
  by (auto split: prod.splits option.splits exn.splits dest: row_body_stored)

lemma process_row_clean:
  "process_row d e m r s = (x, s') \<Longrightarrow> x \<noteq> Some Psycopg2Error \<Longrightarrow> clean e s \<Longrightarrow> clean e s'"
  unfolding process_row_def
  by (auto split: prod.splits option.splits exn.splits dest: row_body_clean)

lemma process_rows_stored: "process_rows d e m rs s = (x, s') \<Longrightarrow> stored s' = stored s"
proof (induction rs arbitrary: s)
  case Nil
  then show ?case by simp
next
  case (Cons r rs)
  then show ?case
    by (auto split: prod.splits option.splits dest: process_row_stored)
qed

lemma process_rows_clean:
  "process_rows d e m rs s = (x, s') \<Longrightarrow> x \<noteq> Some Psycopg2Error \<Longrightarrow> clean e s \<Longrightarrow> clean e s'"
proof (induction rs arbitrary: s)
  case Nil
  then show ?case by simp
next
  case (Cons r rs)
  then show ?case
    by (auto split: prod.splits option.splits dest: process_row_clean)
qed


lemma say_stored_upd: "say m (s\<lparr>stored := t\<rparr>) = (say m s)\<lparr>stored := t\<rparr>"
  by (simp add: say_def)

lemma execute_stored_upd:
  "execute e q (s\<lparr>stored := t\<rparr>) = (fst (execute e q s), (snd (execute e q s))\<lparr>stored := t\<rparr>)"
  by (cases q) (simp_all add: execute_def Let_def)

lemma row_body_stored_upd:
  "row_body d e m r (s\<lparr>stored := t\<rparr>) =
     (fst (row_body d e m r s), (snd (row_body d e m r s))\<lparr>stored := t\<rparr>)"
  unfolding row_body_def Let_def
  by (simp add: say_stored_upd execute_stored_upd
      split: sum.splits list.splits option.splits prod.splits)

lemma process_row_stored_upd:
  "process_row d e m r (s\<lparr>stored := t\<rparr>) =
     (fst (process_row d e m r s), (snd (process_row d e m r s))\<lparr>stored := t\<rparr>)"
  unfolding process_row_def
  by (simp add: row_body_stored_upd say_stored_upd split: prod.splits option.splits exn.splits)

lemma process_rows_stored_upd:
  "process_rows d e m rs (s\<lparr>stored := t\<rparr>) =
     (fst (process_rows d e m rs s), (snd (process_rows d e m rs s))\<lparr>stored := t\<rparr>)"
proof (induction rs arbitrary: s)
  case Nil
  show ?case by simp
next
  case (Cons r rs)
  show ?case
    by (simp add: process_row_stored_upd Cons.IH split: prod.splits option.splits)
qed

lemma get_student_parent_map_stored_upd:
  "get_student_parent_map e db (s\<lparr>stored := t\<rparr>) =
     (fst (get_student_parent_map e db s), (snd (get_student_parent_map e db s))\<lparr>stored := t\<rparr>)"
  unfolding get_student_parent_map_def Let_def
  by (simp add: say_stored_upd execute_stored_upd split: prod.splits option.splits)

lemma commit_stored_upd:
  "commit e (s\<lparr>stored := t\<rparr>) =
     (case commit e s of (None, s') \<Rightarrow> (None, s') | (Some x, s') \<Rightarrow> (Some x, s'\<lparr>stored := t\<rparr>))"
  by (simp add: commit_def Let_def)

lemma load_csv_stored_upd:
  "load_csv d e db (s\<lparr>stored := t\<rparr>) =
     (case load_csv d e db s of
        (None, s') \<Rightarrow> (None, s')
      | (Some x, s') \<Rightarrow> (Some x, s'\<lparr>stored := t\<rparr>))"
proof -
  obtain a s1 where g: "get_student_parent_map e db s = (a, s1)"
    by (cases "get_student_parent_map e db s")
  show ?thesis
  proof (cases a)
    case (Inl x)
    with g show ?thesis
      by (simp add: load_csv_def get_student_parent_map_stored_upd)
  next
    case (Inr m)
    show ?thesis
    proof (cases "csv_file e")
      case None
      with g Inr show ?thesis
        by (simp add: load_csv_def get_student_parent_map_stored_upd say_stored_upd)
    next
      case (Some rows)
      obtain x s3 where p: "process_rows d e m rows (say Msg_reading s1) = (x, s3)"
        by (cases "process_rows d e m rows (say Msg_reading s1)")
      obtain y s4 where c: "commit e s3 = (y, s4)"
        by (cases "commit e s3")
      from g Inr Some p c show ?thesis
        by (cases x; cases y)
          (simp_all add: load_csv_def get_student_parent_map_stored_upd say_stored_upd
            process_rows_stored_upd commit_stored_upd)
    qed
  qed
qed


lemma get_student_parent_map_students:
  "students db' = students db \<Longrightarrow>
   get_student_parent_map e db' s = get_student_parent_map e db s"
  by (simp add: get_student_parent_map_def split: prod.splits option.splits)

lemma load_csv_students:
  "students db' = students db \<Longrightarrow> load_csv d e db' s = load_csv d e db s"
  using get_student_parent_map_students [of db' db e s] by (simp add: load_csv_def)

lemma get_student_parent_map_stored:
  "get_student_parent_map e db s = (a, s') \<Longrightarrow> stored s' = stored s"
  unfolding get_student_parent_map_def Let_def
  by (auto split: prod.splits option.splits dest!: execute_stored)

lemma commit_stored_kept: "commit e s = (Some x, s') \<Longrightarrow> stored s' = stored s"
  by (auto simp: commit_def Let_def split: if_splits)

lemma load_csv_stored_kept:
  assumes "load_csv d e db s = (Some x, s')"
  shows "stored s' = stored s"
proof -
  obtain a s1 where g: "get_student_parent_map e db s = (a, s1)"
    by (cases "get_student_parent_map e db s")
  then have s1: "stored s1 = stored s"
    by (rule get_student_parent_map_stored)
  show ?thesis
  proof (cases a)
    case (Inl y)
    with g assms s1 show ?thesis by (simp add: load_csv_def)
  next
    case (Inr m)
    show ?thesis
    proof (cases "csv_file e")
      case None
      with g Inr assms s1 show ?thesis by (auto simp: load_csv_def)
    next
      case (Some rows)
      obtain y s3 where p: "process_rows d e m rows (say Msg_reading s1) = (y, s3)"
        by (cases "process_rows d e m rows (say Msg_reading s1)")
      then have s3: "stored s3 = stored s"
        using process_rows_stored s1 by fastforce
      obtain z s4 where c: "commit e s3 = (z, s4)"
        by (cases "commit e s3")
      from g Inr Some p c assms s3 show ?thesis
        by (cases y; cases z) (auto simp: load_csv_def dest: commit_stored_kept)
    qed
  qed
qed

lemma erase_and_load_table:
  fixes e db c tr
  defines "B \<equiv> (\<lambda>t. erase_and_load e db \<lparr>stored = t, pending = t, calls = c, trace = tr\<rparr>)"
  shows "fst (B t) = fst (B []) \<and> calls (snd (B t)) = calls (snd (B [])) \<and>
         trace (snd (B t)) = trace (snd (B [])) \<and>
         stored (snd (B t)) = (if fst (B []) = None then stored (snd (B [])) else t)"
proof (cases "db_fault e c")
  case True
  then show ?thesis
    by (simp add: B_def erase_and_load_def execute_def say_def)
next
  case False
  define s0 where "s0 = \<lparr>stored = [], pending = [], calls = Suc c,
    trace = tr @ [Print Msg_erasing, Execute DeleteAll, Print Msg_cleared]\<rparr>"
  have B: "B u = load_csv True e db (s0\<lparr>stored := u\<rparr>)" for u
    using False by (simp add: B_def erase_and_load_def execute_def say_def s0_def)
  obtain x s' where l: "load_csv True e db s0 = (x, s')"
    by (cases "load_csv True e db s0")
  have B0: "B [] = (x, s')"
    using B [of "[]"] l by (simp add: s0_def)
  show ?thesis
  proof (cases x)
    case None
    with l have "B t = (None, s')"
      by (simp add: B load_csv_stored_upd)
    with B0 None show ?thesis by simp
  next
    case (Some y)
    with l have "B t = (Some y, s'\<lparr>stored := t\<rparr>)"
      by (simp add: B load_csv_stored_upd)
    with B0 Some show ?thesis by simp
  qed
qed


lemmas text_defs =
  ustr_def py_strip_def py_strip_chars_def strip_while_def isspace_def py_lower_def
  k_date_def k_start_time_def k_end_time_def k_subject_def k_attendees_def
  k_cost_per_hour_def k_lesson_index_def

lemmas number_defs =
  py_int_def py_float_def floatnumber_def exponent_def scale10_def signed_def digit_value_def
  decimal_def number_space_def int_max_str_digits_def to_double_def round_double_def
  round_half_even_def binade_def pow2_def bit_length.simps

lemmas string_defs = text_defs number_defs

lemmas row_defs =
  process_row_def row_body_def attendee_names_of_def times_of_def lesson_index_of_def
  cost_of_def getitem_def fmt_def clean_name_def execute_def say_def Let_def

lemmas loader_defs =
  main_destructive_def main_additive_def erase_and_load_def load_csv_def
  get_student_parent_map_def build_student_map_def report_def start_def finish_def
  connect_def commit_def rollback_def close_def url_missing_def

lemmas example_defs =
  mila_def omran_def example_row_def example_row2_def example_log_def example_students_def
  old_log_def example_db_def no_fault_def fault_at_def example_env_def

lemma close_simps [simp]:
  "stored (close s) = stored s" "calls (close s) = calls s" "trace (close s) = trace s @ [Close]"
  by (simp_all add: close_def)

lemma rollback_simps [simp]:
  "stored (rollback s) = stored s" "calls (rollback s) = calls s"
  "trace (rollback s) = trace s @ [Rollback]"
  by (simp_all add: rollback_def)

lemma finish_completed: "fst (finish (x, s)) = Completed \<longleftrightarrow> x = None"
  by (simp add: finish_def split: option.splits exn.splits)

lemma finish_database_error: "fst (finish (x, s)) = Database_error \<longleftrightarrow> x = Some Psycopg2Error"
  by (simp add: finish_def split: option.splits exn.splits)

lemma finish_stored: "stored (snd (finish (x, s))) = stored s"
  by (simp add: finish_def split: option.splits exn.splits)

lemma finish_calls: "calls (snd (finish (x, s))) = calls s"
  by (simp add: finish_def split: option.splits exn.splits)

lemma finish_trace_rollback:
  "trace (snd (finish (Some Psycopg2Error, s))) =
     trace s @ [Print Msg_database_error, Rollback, Close]"
  by (simp add: finish_def)

lemma get_student_parent_map_clean:
  "get_student_parent_map e db s = (a, s') \<Longrightarrow> a \<noteq> Inl Psycopg2Error \<Longrightarrow> clean e s \<Longrightarrow> clean e s'"
  unfolding get_student_parent_map_def Let_def
  by (auto split: prod.splits option.splits dest: execute_clean execute_exn)

lemma commit_clean:
  "commit e s = (x, s') \<Longrightarrow> x \<noteq> Some Psycopg2Error \<Longrightarrow> clean e s \<Longrightarrow> clean e s'"
  by (auto simp: commit_def Let_def clean_def less_Suc_eq split: if_splits)

lemma load_csv_clean:
  assumes "load_csv d e db s = (x, s')" and "x \<noteq> Some Psycopg2Error" and "clean e s"
  shows "clean e s'"
proof -
  obtain a s1 where g: "get_student_parent_map e db s = (a, s1)"
    by (cases "get_student_parent_map e db s")
  show ?thesis
  proof (cases a)
    case (Inl y)
    with g assms show ?thesis
      by (auto simp: load_csv_def dest: get_student_parent_map_clean)
  next
    case (Inr m)
    with g assms have s1: "clean e s1"
      by (auto dest: get_student_parent_map_clean)
    show ?thesis
    proof (cases "csv_file e")
      case None
      with g Inr assms s1 show ?thesis by (auto simp: load_csv_def)
    next
      case (Some rows)
      obtain y s3 where p: "process_rows d e m rows (say Msg_reading s1) = (y, s3)"
        by (cases "process_rows d e m rows (say Msg_reading s1)")
      obtain z s4 where c: "commit e s3 = (z, s4)"
        by (cases "commit e s3")
      show ?thesis
      proof (cases y)
        case None
        with p s1 have s3: "clean e s3"
          by (auto dest: process_rows_clean)
        from g Inr Some p c assms None have "z \<noteq> Some Psycopg2Error"
          by (cases z) (auto simp: load_csv_def)
        with c s3 have "clean e s4" by (auto dest: commit_clean)
        with g Inr Some p c assms None show ?thesis
          by (cases z) (auto simp: load_csv_def)
      next
        case (Some w)
        with g Inr \<open>csv_file e = Some rows\<close> p assms have "w \<noteq> Psycopg2Error" "s' = s3"
          by (auto simp: load_csv_def)
        with p Some s1 show ?thesis
          by (auto dest: process_rows_clean)
      qed
    qed
  qed
qed

lemma erase_and_load_clean:
  assumes "erase_and_load e db s = (x, s')" and "x \<noteq> Some Psycopg2Error" and "clean e s"
  shows "clean e s'"
proof -
  obtain y s3 where d: "execute e DeleteAll (say Msg_erasing s) = (y, s3)"
    by (cases "execute e DeleteAll (say Msg_erasing s)")
  show ?thesis
  proof (cases y)
    case None
    with d assms have "clean e s3" by (auto dest: execute_clean)
    with d None assms show ?thesis
      by (auto simp: erase_and_load_def dest: load_csv_clean)
  next
    case (Some w)
    with d assms show ?thesis
      by (auto simp: erase_and_load_def dest: execute_exn)
  qed
qed

lemma erase_and_load_stored_kept:
  assumes "erase_and_load e db s = (Some x, s')"
  shows "stored s' = stored s"
proof -
  obtain y s3 where d: "execute e DeleteAll (say Msg_erasing s) = (y, s3)"
    by (cases "execute e DeleteAll (say Msg_erasing s)")
  then have "stored s3 = stored s"
    by (auto dest: execute_stored)
  with d assms show ?thesis
    by (cases y) (auto simp: erase_and_load_def dest: load_csv_stored_kept)
qed


lemma start_clean: "clean e (start db)"
  by (simp add: clean_def start_def)

lemma connect_clean:
  "connect e s = (x, s') \<Longrightarrow> x \<noteq> Some Psycopg2Error \<Longrightarrow> clean e s \<Longrightarrow> clean e s'"
  by (auto simp: connect_def Let_def clean_def less_Suc_eq split: if_splits)

lemma connect_stored: "connect e s = (x, s') \<Longrightarrow> stored s' = stored s"
  by (auto simp: connect_def Let_def split: if_splits)

lemma connect_exn: "connect e s = (Some x, s') \<Longrightarrow> x = Psycopg2Error"
  by (auto simp: connect_def Let_def split: if_splits)

lemma report_simps [simp]:
  "outcome (report db (oc, s)) = oc"
  "db_after (report db (oc, s)) = db\<lparr>tuition_logs := stored s\<rparr>"
  "calls_made (report db (oc, s)) = calls s"
  "events (report db (oc, s)) = trace s"
  by (simp_all add: report_def)

lemma report_finish_simps [simp]:
  "outcome (report db (finish (x, s))) = fst (finish (x, s))"
  "db_after (report db (finish (x, s))) = db\<lparr>tuition_logs := stored s\<rparr>"
  "calls_made (report db (finish (x, s))) = calls s"
  "events (report db (finish (x, s))) = trace (snd (finish (x, s)))"
  by (cases "finish (x, s)"; use finish_stored [of x s] finish_calls [of x s] in simp)+

text \<open>A run that makes a failing database call ends in the handler of \<^verbatim>\<open>psycopg2.Error\<close>.\<close>

lemma main_destructive_fault:
  assumes "k < calls_made (main_destructive e db)" and "db_fault e k"
  shows "outcome (main_destructive e db) = Database_error"
proof (rule ccontr)
  assume n: "outcome (main_destructive e db) \<noteq> Database_error"
  have "clean e \<lparr>stored = [], pending = [], calls = calls_made (main_destructive e db), trace = []\<rparr>"
  proof (cases "url_missing e \<or> py_lower (confirm_input e) \<noteq> ustr ''yes''")
    case True
    then show ?thesis
      by (auto simp: main_destructive_def clean_def start_def Let_def)
  next
    case False
    obtain x s2 where c: "connect e (say Msg_erase_warning (start db)) = (x, s2)"
      by (cases "connect e (say Msg_erase_warning (start db))")
    show ?thesis
    proof (cases x)
      case (Some y)
      with c False n show ?thesis
        by (auto simp: main_destructive_def Let_def dest: connect_exn)
    next
      case None
      with c have s2: "clean e s2"
        by (auto dest: connect_clean simp: start_clean)
      obtain y s3 where b: "erase_and_load e db s2 = (y, s3)"
        by (cases "erase_and_load e db s2")
      from c None False b n have "y \<noteq> Some Psycopg2Error"
        by (auto simp: main_destructive_def Let_def finish_database_error)
      with b s2 have "clean e s3"
        by (auto dest: erase_and_load_clean)
      with c None False b show ?thesis
        by (simp add: main_destructive_def Let_def clean_def)
    qed
  qed
  with assms show False
    by (simp add: clean_def)
qed


lemma main_additive_fault:
  assumes "k < calls_made (main_additive e db)" and "db_fault e k"
  shows "outcome (main_additive e db) = Database_error"
proof (rule ccontr)
  assume n: "outcome (main_additive e db) \<noteq> Database_error"
  have "clean e \<lparr>stored = [], pending = [], calls = calls_made (main_additive e db), trace = []\<rparr>"
  proof (cases "url_missing e")
    case True
    then show ?thesis
      by (auto simp: main_additive_def clean_def start_def)
  next
    case False
    obtain x s2 where c: "connect e (start db) = (x, s2)"
      by (cases "connect e (start db)")
    show ?thesis
    proof (cases x)
      case (Some y)
      with c False n show ?thesis
        by (auto simp: main_additive_def dest: connect_exn)
    next
      case None
      with c have s2: "clean e s2"
        by (auto dest: connect_clean simp: start_clean)
      obtain y s3 where b: "load_csv False e db s2 = (y, s3)"
        by (cases "load_csv False e db s2")
      from c None False b n have "y \<noteq> Some Psycopg2Error"
        by (auto simp: main_additive_def finish_database_error)
      with b s2 have "clean e s3"
        by (auto dest: load_csv_clean)
      with c None False b show ?thesis
        by (simp add: main_additive_def clean_def)
    qed
  qed
  with assms show False
    by (simp add: clean_def)
qed

text \<open>Only a run that completes changes the table.\<close>

lemma main_destructive_unchanged:
  assumes "outcome (main_destructive e db) \<noteq> Completed"
  shows "db_after (main_destructive e db) = db"
proof (cases "url_missing e \<or> py_lower (confirm_input e) \<noteq> ustr ''yes''")
  case True
  then show ?thesis
    by (auto simp: main_destructive_def start_def Let_def)
next
  case False
  obtain x s2 where c: "connect e (say Msg_erase_warning (start db)) = (x, s2)"
    by (cases "connect e (say Msg_erase_warning (start db))")
  then have s2: "stored s2 = tuition_logs db"
    by (auto dest: connect_stored simp: start_def)
  obtain y s3 where b: "erase_and_load e db s2 = (y, s3)"
    by (cases "erase_and_load e db s2")
  show ?thesis
  proof (cases x)
    case (Some w)
    with c False s2 show ?thesis
      by (simp add: main_destructive_def Let_def)
  next
    case None
    with c False b assms obtain w where "y = Some w"
      by (cases y) (auto simp: main_destructive_def Let_def finish_completed)
    with b s2 have "stored s3 = tuition_logs db"
      by (auto dest: erase_and_load_stored_kept)
    with c None False b show ?thesis
      by (simp add: main_destructive_def Let_def)
  qed
qed

lemma main_additive_unchanged:
  assumes "outcome (main_additive e db) \<noteq> Completed"
  shows "db_after (main_additive e db) = db"
proof (cases "url_missing e")
  case True
  then show ?thesis
    by (auto simp: main_additive_def start_def)
next
  case False
  obtain x s2 where c: "connect e (start db) = (x, s2)"
    by (cases "connect e (start db)")
  then have s2: "stored s2 = tuition_logs db"
    by (auto dest: connect_stored simp: start_def)
  obtain y s3 where b: "load_csv False e db s2 = (y, s3)"
    by (cases "load_csv False e db s2")
  show ?thesis
  proof (cases x)
    case (Some w)
    with c False s2 show ?thesis
      by (simp add: main_additive_def)
  next
    case None
    with c False b assms obtain w where "y = Some w"
      by (cases y) (auto simp: main_additive_def finish_completed)
    with b s2 have "stored s3 = tuition_logs db"
      by (auto dest: load_csv_stored_kept)
    with c None False b show ?thesis
      by (simp add: main_additive_def)
  qed
qed

text \<open>
  Once the connection exists, the handler of \<^verbatim>\<open>psycopg2.Error\<close> prints, rolls back and
  the connection is closed: these are the last three events of the run.
\<close>

lemma main_destructive_rollback:
  assumes "outcome (main_destructive e db) = Database_error"
    and "1 < calls_made (main_destructive e db)"
  shows "\<exists>evs. events (main_destructive e db) = evs @ [Print Msg_database_error, Rollback, Close]"
proof (cases "url_missing e \<or> py_lower (confirm_input e) \<noteq> ustr ''yes''")
  case True
  with assms show ?thesis
    by (auto simp: main_destructive_def start_def Let_def split: if_splits)
next
  case False
  obtain x s2 where c: "connect e (say Msg_erase_warning (start db)) = (x, s2)"
    by (cases "connect e (say Msg_erase_warning (start db))")
  obtain y s3 where b: "erase_and_load e db s2 = (y, s3)"
    by (cases "erase_and_load e db s2")
  show ?thesis
  proof (cases x)
    case (Some w)
    with c False assms show ?thesis
      by (auto simp: main_destructive_def Let_def connect_def start_def split: if_splits)
  next
    case None
    with c False b assms have "y = Some Psycopg2Error"
      by (simp add: main_destructive_def Let_def finish_database_error)
    with c None False b show ?thesis
      by (simp add: main_destructive_def Let_def finish_trace_rollback)
  qed
qed

lemma main_additive_rollback:
  assumes "outcome (main_additive e db) = Database_error"
    and "1 < calls_made (main_additive e db)"
  shows "\<exists>evs. events (main_additive e db) = evs @ [Print Msg_database_error, Rollback, Close]"
proof (cases "url_missing e")
  case True
  with assms show ?thesis
    by (auto simp: main_additive_def start_def split: if_splits)
next
  case False
  obtain x s2 where c: "connect e (start db) = (x, s2)"
    by (cases "connect e (start db)")
  obtain y s3 where b: "load_csv False e db s2 = (y, s3)"
    by (cases "load_csv False e db s2")
  show ?thesis
  proof (cases x)
    case (Some w)
    with c False assms show ?thesis
      by (auto simp: main_additive_def connect_def start_def Let_def split: if_splits)
  next
    case None
    with c False b assms have "y = Some Psycopg2Error"
      by (simp add: main_additive_def finish_database_error)
    with c None False b show ?thesis
      by (simp add: main_additive_def finish_trace_rollback)
  qed
qed

lemma erase_and_load_students:
  "students db' = students db \<Longrightarrow> erase_and_load e db' s = erase_and_load e db s"
  using load_csv_students [of db' db] by (simp add: erase_and_load_def split: prod.splits option.splits)

text \<open>
  The destructive loader's outcome does not depend on the table it finds, and when it
  completes neither does the table it leaves.
\<close>

lemma main_destructive_table:
  "\<exists>oc new. \<forall>t.
      outcome (main_destructive e (db\<lparr>tuition_logs := t\<rparr>)) = oc \<and>
      db_after (main_destructive e (db\<lparr>tuition_logs := t\<rparr>)) =
        db\<lparr>tuition_logs := (if oc = Completed then new else t)\<rparr>"
proof (cases "url_missing e \<or> py_lower (confirm_input e) \<noteq> ustr ''yes''")
  case True
  then show ?thesis
    by (auto simp: main_destructive_def start_def Let_def)
next
  case False
  show ?thesis
  proof (cases "db_fault e 0")
    case True
    with False show ?thesis
      by (auto simp: main_destructive_def start_def Let_def connect_def)
  next
    case nofault: False
    define B where "B = (\<lambda>t. erase_and_load e db
      \<lparr>stored = t, pending = t, calls = Suc 0, trace = [Print Msg_erase_warning, Connect]\<rparr>)"
    have tab: "fst (B t) = fst (B []) \<and>
        stored (snd (B t)) = (if fst (B []) = None then stored (snd (B [])) else t)" for t
      using erase_and_load_table [of e db t "Suc 0" "[Print Msg_erase_warning, Connect]"]
      by (simp add: B_def)
    have run: "main_destructive e (db\<lparr>tuition_logs := t\<rparr>) =
        report (db\<lparr>tuition_logs := t\<rparr>) (finish (B t))" for t
      using False nofault
        erase_and_load_students [of "db\<lparr>tuition_logs := t\<rparr>" db e]
      by (simp add: main_destructive_def start_def Let_def connect_def say_def B_def)
    have "outcome (main_destructive e (db\<lparr>tuition_logs := t\<rparr>)) = fst (finish (B [])) \<and>
      db_after (main_destructive e (db\<lparr>tuition_logs := t\<rparr>)) =
        db\<lparr>tuition_logs :=
          (if fst (finish (B [])) = Completed then stored (snd (B [])) else t)\<rparr>" for t
    proof -
      obtain x s where b: "B t = (x, s)" by (cases "B t")
      obtain x0 s0 where b0: "B [] = (x0, s0)" by (cases "B []")
      from tab [of t] b b0 have "x = x0" "stored s = (if x0 = None then stored s0 else t)"
        by simp_all
      with b b0 show ?thesis
        by (simp add: run finish_completed) (simp add: finish_def split: option.splits exn.splits)
    qed
    then show ?thesis by blast
  qed
qed

lemma py_lower_yes: "py_lower s = ustr ''yes'' \<longleftrightarrow> s \<in> set affirmative"
proof -
  have l: "(if 65 \<le> c \<and> c \<le> 90 then c + 32 else c) = k \<longleftrightarrow>
      (c = k \<and> \<not> (65 \<le> c \<and> c \<le> 90)) \<or> (65 \<le> c \<and> c \<le> 90 \<and> c + 32 = k)" for c k :: nat
    by auto
  show ?thesis
    unfolding py_lower_def affirmative_def ustr_def
    by (auto simp: map_eq_Cons_conv l)
qed

lemma process_row_inserts:
  assumes "attendee_names_of d r = Inr (first # rest)"
    and "map_of m (Text first) = Some (sid, gid)"
    and "r k_date = Some dt" and "r k_start_time = Some st" and "r k_end_time = Some et"
    and "lesson_index_of r = Inr li"
    and "r k_subject = Some sj"
    and "cost_of r = Inr c"
    and "\<not> db_fault e (calls s)"
  shows "process_row d e m r s =
     row_inserted d dt
       \<lparr>parent_user_id = gid, subject = sj, attendee_names = first # rest, lesson_index = li,
        cost_per_hour = c, start_time = fmt dt @ [32] @ fmt st,
        end_time = fmt dt @ [32] @ fmt et\<rparr> s"
  using assms
  by (simp add: process_row_def row_body_def times_of_def getitem_def execute_def say_def
      row_inserted_def)

lemma example_row_names: "attendee_names_of d example_row = Inr [mila]"
  by (cases d) (simp_all add: example_defs row_defs string_defs)

lemma example_row_lesson: "lesson_index_of example_row = Inr (Some 1)"
  by (simp add: example_defs row_defs string_defs)

lemma example_row_cost: "cost_of example_row = Inr (Finite 60)"
  by (simp add: example_defs row_defs string_defs)

lemma digits_of_not_Nil: "digits_of n \<noteq> []"
  by (subst digits_of.simps) simp

lemma digits_of_lt10: "d \<in> set (digits_of n) \<Longrightarrow> d < 10"
proof (induction n rule: digits_of.induct)
  case (1 n)
  then show ?case
    by (subst (asm) (2) digits_of.simps) (auto split: if_splits)
qed

lemma decimal_snoc: "decimal (ds @ [d]) = 10 * decimal ds + d"
  by (simp add: decimal_def)

lemma decimal_digits_of: "decimal (digits_of n) = n"
proof (induction n rule: digits_of.induct)
  case (1 n)
  show ?case
  proof (cases "n < 10")
    case True
    then show ?thesis
      by (subst digits_of.simps) (simp add: decimal_def)
  next
    case False
    with 1 show ?thesis
      by (subst digits_of.simps) (simp add: decimal_snoc)
  qed
qed

lemma digitpart_digits:
  "ds \<noteq> [] \<Longrightarrow> \<forall>d \<in> set ds. d < 10 \<Longrightarrow> digitpart (map (\<lambda>d. d + 48) ds) = Some ds"
proof (induction ds)
  case Nil
  then show ?case by simp
next
  case (Cons a ds)
  show ?case
  proof (cases ds)
    case Nil
    with Cons.prems show ?thesis
      by (simp add: digit_value_def)
  next
    case (Cons b bs)
    with Cons.prems Cons.IH show ?thesis
      by (simp add: digit_value_def)
  qed
qed

lemma dropWhile_id: "xs \<noteq> [] \<Longrightarrow> \<not> P (hd xs) \<Longrightarrow> dropWhile P xs = xs"
  by (cases xs) auto

lemma strip_while_id:
  assumes "s \<noteq> []" and "\<not> P (hd s)" and "\<not> P (last s)"
  shows "strip_while P s = s"
proof -
  have "dropWhile P s = s"
    using assms by (simp add: dropWhile_id)
  moreover have "dropWhile P (rev s) = rev s"
    using assms by (simp add: dropWhile_id hd_rev)
  ultimately show ?thesis
    by (simp add: strip_while_def)
qed

lemma py_int_digits:
  assumes "ds \<noteq> []" and "\<forall>d \<in> set ds. d < 10"
  shows "py_int (map (\<lambda>d. d + 48) ds) =
           (if int_max_str_digits < length ds then None else Some (int (decimal ds)))"
    and "py_int (45 # map (\<lambda>d. d + 48) ds) =
           (if int_max_str_digits < length ds then None else Some (- int (decimal ds)))"
proof -
  let ?s = "map (\<lambda>d. d + 48) ds"
  have sp: "\<not> number_space (d + 48)" if "d < 10" for d
    using that by (simp add: number_space_def isspace_def)
  have h: "hd ?s = hd ds + 48" "last ?s = last ds + 48"
    using assms by (simp_all add: hd_map last_map)
  have hl: "hd ds < 10" "last ds < 10"
    using assms by simp_all
  have 1: "strip_while number_space ?s = ?s"
    using assms h hl by (intro strip_while_id) (simp_all add: sp)
  have m: "\<not> number_space 45"
    by (simp add: number_space_def isspace_def)
  have "last (45 # ?s) = last ds + 48"
    using assms(1) h by simp
  then have 2: "strip_while number_space (45 # ?s) = 45 # ?s"
    using hl m by (intro strip_while_id) (simp_all add: sp)
  have 3: "signed ?s = (False, ?s)"
    using assms hl by (cases ds) (simp_all add: signed_def)
  show "py_int ?s = (if int_max_str_digits < length ds then None else Some (int (decimal ds)))"
    using assms by (simp add: py_int_def 1 3 digitpart_digits)
  show "py_int (45 # ?s) =
      (if int_max_str_digits < length ds then None else Some (- int (decimal ds)))"
    using assms by (simp add: py_int_def 2 signed_def digitpart_digits)
qed

lemma length_digits_of_le: "0 < k \<Longrightarrow> n < 10 ^ k \<Longrightarrow> length (digits_of n) \<le> k"
proof (induction n arbitrary: k rule: digits_of.induct)
  case (1 n)
  show ?case
  proof (cases "n < 10")
    case True
    with 1 show ?thesis
      by (subst digits_of.simps) simp
  next
    case False
    with "1.prems" obtain j where k: "k = Suc j"
      by (cases k) auto
    with False "1.prems" have "0 < j"
      by (cases j) auto
    moreover from k "1.prems" have "n div 10 < 10 ^ j"
      by (simp add: less_mult_imp_div_less mult.commute)
    ultimately have "length (digits_of (n div 10)) \<le> j"
      using False by (intro "1.IH") simp_all
    with False k show ?thesis
      by (subst digits_of.simps) simp
  qed
qed

lemma length_digits_of_gt: "10 ^ k \<le> n \<Longrightarrow> k < length (digits_of n)"
proof (induction n arbitrary: k rule: digits_of.induct)
  case (1 n)
  show ?case
  proof (cases k)
    case 0
    then show ?thesis
      using digits_of_not_Nil [of n] by (cases "digits_of n") simp_all
  next
    case (Suc j)
    have "(10::nat) \<le> 10 ^ Suc j"
      by simp
    with Suc "1.prems" have f: "\<not> n < 10"
      by (simp only: not_less)
    from Suc "1.prems" have "10 ^ j \<le> n div 10"
      by (simp add: less_eq_div_iff_mult_less_eq mult.commute)
    with f have "j < length (digits_of (n div 10))"
      by (intro "1.IH") simp_all
    with f Suc show ?thesis
      by (subst digits_of.simps) simp
  qed
qed

text \<open>
  \<^verbatim>\<open>int\<close> reads back what \<^verbatim>\<open>str\<close> writes for an integer of at most 4300 digits, and
  refuses the text of a longer one.
\<close>

lemma py_int_py_str_int:
  assumes "\<bar>n\<bar> < 10 ^ int_max_str_digits"
  shows "py_int (py_str_int n) = Some n"
proof -
  have k: "0 < int_max_str_digits"
    by (simp add: int_max_str_digits_def)
  show ?thesis
  proof (cases "n < 0")
    case True
    with assms have "nat (- n) < 10 ^ int_max_str_digits"
      by (simp add: nat_less_iff)
    with k have "length (digits_of (nat (- n))) \<le> int_max_str_digits"
      by (rule length_digits_of_le)
    with True show ?thesis
      using py_int_digits(2) [of "digits_of (nat (- n))"]
      by (simp add: py_str_int_def digits_of_not_Nil digits_of_lt10 decimal_digits_of)
  next
    case False
    with assms have "nat n < 10 ^ int_max_str_digits"
      by (simp add: nat_less_iff)
    with k have "length (digits_of (nat n)) \<le> int_max_str_digits"
      by (rule length_digits_of_le)
    with False show ?thesis
      using py_int_digits(1) [of "digits_of (nat n)"]
      by (simp add: py_str_int_def digits_of_not_Nil digits_of_lt10 decimal_digits_of)
  qed
qed

lemma py_int_long_literal:
  assumes "10 ^ int_max_str_digits \<le> \<bar>n\<bar>"
  shows "py_int (py_str_int n) = None"
proof (cases "n < 0")
  case True
  with assms have "10 ^ int_max_str_digits \<le> nat (- n)"
    by (simp add: le_nat_iff)
  then have "int_max_str_digits < length (digits_of (nat (- n)))"
    by (rule length_digits_of_gt)
  with True show ?thesis
    using py_int_digits(2) [of "digits_of (nat (- n))"]
    by (simp add: py_str_int_def digits_of_not_Nil digits_of_lt10)
next
  case False
  with assms have "10 ^ int_max_str_digits \<le> nat n"
    by (simp add: le_nat_iff)
  then have "int_max_str_digits < length (digits_of (nat n))"
    by (rule length_digits_of_gt)
  with False show ?thesis
    using py_int_digits(1) [of "digits_of (nat n)"]
    by (simp add: py_str_int_def digits_of_not_Nil digits_of_lt10)
qed

lemma digits_of_power10: "digits_of (10 ^ k) = 1 # replicate k 0"
proof (induction k)
  case 0
  show ?case
    by (subst digits_of.simps) simp
next
  case (Suc k)
  have "\<not> (10::nat) ^ Suc k < 10"
    by simp
  then have "digits_of (10 ^ Suc k) = digits_of (10 ^ Suc k div 10) @ [10 ^ Suc k mod 10]"
    by (subst digits_of.simps) simp
  with Suc show ?case
    by (simp add: replicate_append_same)
qed

lemma py_str_int_not_Nil: "py_str_int n \<noteq> []"
  by (simp add: py_str_int_def digits_of_not_Nil)

lemma lesson_index_of_absent:
  "r k_lesson_index = None \<or> r k_lesson_index = Some NoneVal \<or> r k_lesson_index = Some (Text []) \<Longrightarrow>
   lesson_index_of r = Inr None"
  by (auto simp: lesson_index_of_def)

lemma lesson_index_of_int:
  "r k_lesson_index = Some (Text t) \<Longrightarrow> t \<noteq> [] \<Longrightarrow> py_int t = Some n \<Longrightarrow>
   lesson_index_of r = Inr (Some n)"
  by (simp add: lesson_index_of_def)

lemma names_mila_omran:
  "r k_attendees = Some (Text (ustr ''Mila,Omran'')) \<Longrightarrow> attendee_names_of d r = Inr [mila, omran]"
  by (cases d) (simp_all add: attendee_names_of_def getitem_def clean_name_def mila_def omran_def
      string_defs)

lemma map_of_foldl_update:
  "map_of (foldl (\<lambda>m r. AList.update (first_name r) (student_id r, user_id r) m) m0 rows) =
     map_of m0 ++ map_of (rev (map (\<lambda>r. (first_name r, (student_id r, user_id r))) rows))"
proof (induction rows arbitrary: m0)
  case Nil
  show ?case by simp
next
  case (Cons r rows)
  show ?case
    by (auto simp: Cons.IH update_conv' map_add_def fun_eq_iff split: option.splits)
qed

lemma keys_foldl_update:
  "fst ` set (foldl (\<lambda>m r. AList.update (first_name r) (student_id r, user_id r) m) m0 rows) =
     fst ` set m0 \<union> first_name ` set rows"
proof (induction rows arbitrary: m0)
  case Nil
  show ?case by simp
next
  case (Cons r rows)
  show ?case
    by (auto simp: Cons.IH dom_update)
qed

lemma distinct_foldl_update:
  "distinct (map fst m0) \<Longrightarrow>
   distinct (map fst (foldl (\<lambda>m r. AList.update (first_name r) (student_id r, user_id r) m) m0 rows))"
proof (induction rows arbitrary: m0)
  case Nil
  then show ?case by simp
next
  case (Cons r rows)
  then show ?case
    by (simp add: distinct_update)
qed

lemma build_student_map_last:
  assumes "first_name q \<notin> first_name ` set zs"
  shows "map_of (build_student_map (xs @ q # zs)) (first_name q) = Some (student_id q, user_id q)"
proof -
  have "map_of (rev (map (\<lambda>r. (first_name r, (student_id r, user_id r))) zs)) (first_name q) = None"
    using assms by (simp add: map_of_eq_None_iff image_image)
  then show ?thesis
    unfolding build_student_map_def map_of_foldl_update
    by (simp add: map_add_def)
qed

lemma build_student_map_keys:
  "fst ` set (build_student_map rows) = first_name ` set rows"
  by (simp add: build_student_map_def keys_foldl_update)

lemma build_student_map_distinct: "distinct (map fst (build_student_map rows))"
  by (simp add: build_student_map_def distinct_foldl_update)

lemma build_student_map_length:
  "length (build_student_map rows) = card (first_name ` set rows)"
proof -
  have "length (build_student_map rows) = length (map fst (build_student_map rows))"
    by simp
  also have "\<dots> = card (set (map fst (build_student_map rows)))"
    using build_student_map_distinct [of rows] by (simp only: distinct_card)
  also have "\<dots> = card (first_name ` set rows)"
    by (simp add: build_student_map_keys)
  finally show ?thesis .
qed

lemma strip_while_Nil: "strip_while P [] = []"
  by (simp add: strip_while_def)

lemma clean_name_Nil: "clean_name d [] = []"
  by (simp add: clean_name_def py_strip_def py_strip_chars_def strip_while_Nil)

lemma attendee_names_of_Text:
  "r k_attendees = Some (Text a) \<Longrightarrow>
   attendee_names_of d r = Inr (map (clean_name d) (py_split 44 a))"
  by (simp add: attendee_names_of_def getitem_def)

lemma row_body_no_IndexError: "fst (row_body d e m r s) \<noteq> Some IndexError"
proof -
  have x: "fst (execute e q t) \<noteq> Some IndexError" for q t
    by (simp add: execute_def Let_def)
  have g: "getitem r k \<noteq> Inl IndexError" for k
    by (simp add: getitem_def split: option.splits)
  have t: "times_of r \<noteq> Inl IndexError"
    by (simp add: times_of_def getitem_def split: option.splits)
  have l: "lesson_index_of r \<noteq> Inl IndexError"
    by (simp add: lesson_index_of_def split: option.splits cell.splits)
  have c: "cost_of r \<noteq> Inl IndexError"
    by (simp add: cost_of_def getitem_def split: option.splits cell.splits)
  have a: "attendee_names_of d r \<noteq> Inl IndexError"
    by (simp add: attendee_names_of_def getitem_def split: option.splits cell.splits)
  show ?thesis
    using x g t l c a attendee_names_of_not_Nil [of d r]
    unfolding row_body_def Let_def
    by (auto split: sum.splits list.splits option.splits prod.splits)
qed

lemma process_row_no_IndexError: "fst (process_row d e m r s) \<noteq> Some IndexError"
  using row_body_no_IndexError [of d e m r s]
  by (cases "row_body d e m r s") (auto simp: process_row_def split: option.splits exn.splits)

lemma process_row_exits:
  assumes "fst (process_row d e m r s) = Some x"
  shows "x = AttributeError \<or> x = TypeError \<or> x = Psycopg2Error"
proof -
  obtain y s' where b: "row_body d e m r s = (y, s')"
    by (cases "row_body d e m r s")
  have g: "getitem r k = Inl z \<Longrightarrow> z = KeyError k" for k z
    by (auto simp: getitem_def split: option.splits)
  have t: "times_of r = Inl z \<Longrightarrow> \<exists>k. z = KeyError k" for z
    by (auto simp: times_of_def getitem_def split: option.splits)
  have l: "lesson_index_of r = Inl z \<Longrightarrow> z = ValueError" for z
    by (auto simp: lesson_index_of_def split: option.splits cell.splits if_splits)
  have c: "cost_of r = Inl z \<Longrightarrow> (\<exists>k. z = KeyError k) \<or> z = TypeError \<or> z = ValueError" for z
    by (auto simp: cost_of_def getitem_def split: option.splits cell.splits)
  have a: "attendee_names_of d r = Inl z \<Longrightarrow> (\<exists>k. z = KeyError k) \<or> z = AttributeError" for z
    by (auto simp: attendee_names_of_def getitem_def split: option.splits cell.splits)
  have "y = None \<or> (\<exists>k. y = Some (KeyError k)) \<or> y = Some ValueError \<or> y = Some AttributeError \<or>
      y = Some TypeError \<or> y = Some Psycopg2Error"
    using b attendee_names_of_not_Nil [of d r]
    unfolding row_body_def Let_def
    by (cases y) (auto split: sum.splits list.splits option.splits prod.splits
        dest!: g t l c a execute_exn)
  with b assms show ?thesis
    by (auto simp: process_row_def)
qed

lemma lookup_miss_skips:
  assumes "attendee_names_of d r = Inr (first # rest)" and "map_of m (Text first) = None"
  shows "process_row d e m r s =
     (None, say (Msg_skip_not_found first) (if d then say (Msg_names (first # rest)) s else s))"
  using assms by (simp add: process_row_def row_body_def)

lemma row_error_skips:
  assumes "row_body d e m r s = (Some x, s')" and "x = ValueError \<or> (\<exists>k. x = KeyError k)"
  shows "process_row d e m r s = (None, say (Msg_skip_invalid x) s')"
  using assms by (auto simp: process_row_def)

lemma dropWhile_all: "\<forall>x \<in> set xs. P x \<Longrightarrow> dropWhile P xs = []"
  by (induction xs) auto

lemma dropWhile_prefix: "\<forall>x \<in> set xs. P x \<Longrightarrow> dropWhile P (xs @ t) = dropWhile P t"
  by (induction xs) auto

lemma strip_while_suffix:
  assumes "\<forall>y \<in> set ys. P y"
  shows "strip_while P (s @ ys) = strip_while P s"
proof (cases "\<forall>x \<in> set s. P x")
  case True
  with assms have "\<forall>x \<in> set (s @ ys). P x"
    by auto
  then have a: "dropWhile P (s @ ys) = []"
    by (rule dropWhile_all)
  from True have b: "dropWhile P s = []"
    by (rule dropWhile_all)
  show ?thesis
    unfolding strip_while_def by (simp only: a b)
next
  case False
  then obtain x where "x \<in> set s" "\<not> P x"
    by blast
  then have "dropWhile P (s @ ys) = dropWhile P s @ ys"
    by (rule dropWhile_append1)
  moreover have "dropWhile P (rev ys @ t) = dropWhile P t" for t
    using assms by (simp add: dropWhile_prefix)
  ultimately show ?thesis
    by (simp add: strip_while_def)
qed

lemma strip_while_prefix:
  assumes "\<forall>x \<in> set xs. P x"
  shows "strip_while P (xs @ s) = strip_while P s"
  using assms by (simp add: strip_while_def dropWhile_prefix)

text \<open>
  The destructive loader's key for a name between curly quotes, with or without
  whitespace around the quotes, is its key for the name itself, for every name that
  has no whitespace at its ends.
\<close>

lemma curly_quoted_name_destructive:
  assumes "py_strip n = n" and "\<forall>c \<in> set ws1. isspace c" and "\<forall>c \<in> set ws2. isspace c"
  shows "clean_name True (ws1 @ [8220] @ n @ [8221] @ ws2) = clean_name True n"
proof -
  let ?q = "[8220] @ n @ [8221]"
  have "py_strip (ws1 @ ?q @ ws2) = py_strip ?q"
    unfolding py_strip_def using assms(2,3)
    by (simp only: strip_while_prefix strip_while_suffix)
  also have "\<dots> = ?q"
    unfolding py_strip_def by (rule strip_while_id) (simp_all add: isspace_def)
  finally have 1: "py_strip (ws1 @ [8220] @ n @ [8221] @ ws2) = ?q"
    by simp
  have 2: "py_strip_chars [8220, 8221] ?q = py_strip_chars [8220, 8221] n"
    unfolding py_strip_chars_def
    using strip_while_prefix [of "[8220]" "\<lambda>c. c \<in> set [8220, 8221]" "n @ [8221]"]
      strip_while_suffix [of "[8221]" "\<lambda>c. c \<in> set [8220, 8221]" n]
    by simp
  show ?thesis
    by (simp only: clean_name_def if_True 1 2 assms(1))
qed

section \<open>The claims\<close>

text \<open>
  C2. If a database call of the run fails (the \<^verbatim>\<open>DELETE\<close>, the \<^verbatim>\<open>SELECT\<close>, an
  \<^verbatim>\<open>INSERT\<close> or the commit; \<open>k\<close> is the number of the failing call), the run ends in
  the handler of \<^verbatim>\<open>psycopg2.Error\<close> and the database after the run is the database
  before it: nothing of the run persists. When the failing call is not the
  \<^verbatim>\<open>connect\<close> itself (\<open>0 < k\<close>), the run's last three events are the error message,
  the rollback and the closing of the connection. This holds for both loaders.
\<close>

theorem database_error_rolls_back:
  assumes "R = main_destructive e db \<or> R = main_additive e db"
    and "k < calls_made R" and "db_fault e k"
  shows "outcome R = Database_error \<and> db_after R = db \<and>
         (0 < k \<longrightarrow> (\<exists>evs. events R = evs @ [Print Msg_database_error, Rollback, Close]))"
proof -
  from assms have oc: "outcome R = Database_error"
    using main_destructive_fault main_additive_fault by blast
  with assms(1) have "db_after R = db"
    using main_destructive_unchanged [of e db] main_additive_unchanged [of e db] by auto
  moreover have "\<exists>evs. events R = evs @ [Print Msg_database_error, Rollback, Close]" if "0 < k"
  proof -
    from that assms(2) have "1 < calls_made R" by simp
    with oc assms(1) show ?thesis
      using main_destructive_rollback [of e db] main_additive_rollback [of e db] by auto
  qed
  ultimately show ?thesis
    using oc by blast
qed


theorem database_error_rolls_back_witness:
  "3 < calls_made (main_destructive (example_env\<lparr>db_fault := fault_at 3\<rparr>) example_db) \<and>
   db_fault (example_env\<lparr>db_fault := fault_at 3\<rparr>) 3 \<and>
   outcome (main_destructive (example_env\<lparr>db_fault := fault_at 3\<rparr>) example_db) = Database_error \<and>
   db_after (main_destructive (example_env\<lparr>db_fault := fault_at 3\<rparr>) example_db) = example_db \<and>
   (\<exists>evs. events (main_destructive (example_env\<lparr>db_fault := fault_at 3\<rparr>) example_db) =
      evs @ [Print Msg_database_error, Rollback, Close])"
proof -
  let ?e = "example_env\<lparr>db_fault := fault_at 3\<rparr>"
  have c: "3 < calls_made (main_destructive ?e example_db)"
    by (simp add: loader_defs row_defs example_defs string_defs)
  have f: "db_fault ?e 3"
    by (simp add: fault_at_def)
  from database_error_rolls_back [OF disjI1 [OF refl] c f] c f show ?thesis
    by simp
qed

text \<open>
  C1. In the destructive loader, when the line typed at the prompt is not the word yes
  (in any mix of upper and lower case), the run ends without an exception, the database
  is what it was, no database call was made (nothing was deleted, nothing inserted), and
  all the run did was print the warning and the cancellation (or, without a connection
  string, the configuration error).
\<close>

theorem declined_touches_nothing:
  assumes "confirm_input e \<notin> set affirmative"
  shows "db_after (main_destructive e db) = db \<and>
         calls_made (main_destructive e db) = 0 \<and>
         outcome (main_destructive e db) = (if url_missing e then Unconfigured else Declined) \<and>
         events (main_destructive e db) =
           (if url_missing e then [Print Msg_no_url]
            else [Print Msg_erase_warning, Print Msg_cancelled])"
  using assms by (simp add: py_lower_yes [symmetric] main_destructive_def start_def Let_def)

theorem declined_touches_nothing_witness:
  "confirm_input (example_env\<lparr>confirm_input := ustr ''y''\<rparr>) \<notin> set affirmative \<and>
   db_after (main_destructive (example_env\<lparr>confirm_input := ustr ''y''\<rparr>) example_db) = example_db \<and>
   calls_made (main_destructive (example_env\<lparr>confirm_input := ustr ''y''\<rparr>) example_db) = 0 \<and>
   outcome (main_destructive (example_env\<lparr>confirm_input := ustr ''y''\<rparr>) example_db) = Declined \<and>
   events (main_destructive (example_env\<lparr>confirm_input := ustr ''y''\<rparr>) example_db) =
     [Print Msg_erase_warning, Print Msg_cancelled]"
proof -
  have h: "confirm_input (example_env\<lparr>confirm_input := ustr ''y''\<rparr>) \<notin> set affirmative"
    by (simp add: affirmative_def ustr_def)
  have u: "\<not> url_missing (example_env\<lparr>confirm_input := ustr ''y''\<rparr>)"
    by (simp add: url_missing_def example_env_def ustr_def)
  from declined_touches_nothing [OF h, of example_db] h u show ?thesis
    by simp
qed

text \<open>
  C7. The destructive loader is idempotent: in one environment (the same file, the same
  answer at the prompt, the same behaviour of the database), running it on the database
  a first run has left gives the database the first run has left. This holds for every
  initial table and every student table, whether the run completes or not.
\<close>

theorem destructive_loader_idempotent:
  "db_after (main_destructive e (db_after (main_destructive e db))) =
   db_after (main_destructive e db)"
proof -
  obtain oc new where t: "\<And>t.
      outcome (main_destructive e (db\<lparr>tuition_logs := t\<rparr>)) = oc \<and>
      db_after (main_destructive e (db\<lparr>tuition_logs := t\<rparr>)) =
        db\<lparr>tuition_logs := (if oc = Completed then new else t)\<rparr>"
    using main_destructive_table [of e db] by blast
  have "db_after (main_destructive e db) =
      db\<lparr>tuition_logs := (if oc = Completed then new else tuition_logs db)\<rparr>"
    using t [of "tuition_logs db"] by simp
  then show ?thesis
    using t [of "if oc = Completed then new else tuition_logs db"] by simp
qed

theorem destructive_loader_idempotent_witness:
  "db_after (main_destructive example_env (db_after (main_destructive example_env example_db))) =
   db_after (main_destructive example_env example_db) \<and>
   db_after (main_destructive example_env example_db) =
     example_db\<lparr>tuition_logs := [example_log (ustr ''g1'')]\<rparr>"
proof -
  have "db_after (main_destructive example_env example_db) =
     example_db\<lparr>tuition_logs := [example_log (ustr ''g1'')]\<rparr>"
    by (simp add: loader_defs row_defs example_defs string_defs)
  with destructive_loader_idempotent [of example_env example_db] show ?thesis
    by simp
qed

text \<open>
  C3. The row \<^verbatim>\<open>2025-09-04,10:00,11:30,Math,"Mila",60.00,1\<close> with a lookup map that
  holds Mila with the identifiers \<open>(sid, gid)\<close>: in either loader the row makes
  exactly one \<^verbatim>\<open>INSERT\<close>, and when the database accepts it the transaction's table
  gains exactly the record (gid, Math, [Mila], 1, 60.0, 2025-09-04 10:00,
  2025-09-04 11:30), each timestamp being the date, a space and the clock field.
\<close>

theorem example_row_inserts_one_record:
  assumes "map_of m (Text mila) = Some (sid, gid)" and "\<not> db_fault e (calls s)"
  shows "process_row d e m example_row s =
           row_inserted d (Text (ustr ''2025-09-04'')) (example_log gid) s \<and>
         pending (snd (process_row d e m example_row s)) = pending s @ [example_log gid] \<and>
         example_log gid =
           \<lparr>parent_user_id = gid, subject = Text (ustr ''Math''), attendee_names = [ustr ''Mila''],
            lesson_index = Some 1, cost_per_hour = Finite 60,
            start_time = ustr ''2025-09-04'' @ ustr '' '' @ ustr ''10:00'',
            end_time = ustr ''2025-09-04'' @ ustr '' '' @ ustr ''11:30''\<rparr>"
proof -
  have "process_row d e m example_row s =
      row_inserted d (Text (ustr ''2025-09-04''))
        \<lparr>parent_user_id = gid, subject = Text (ustr ''Math''), attendee_names = [mila],
         lesson_index = Some 1, cost_per_hour = Finite 60,
         start_time = fmt (Text (ustr ''2025-09-04'')) @ [32] @ fmt (Text (ustr ''10:00'')),
         end_time = fmt (Text (ustr ''2025-09-04'')) @ [32] @ fmt (Text (ustr ''11:30''))\<rparr> s"
    by (rule process_row_inserts [OF example_row_names assms(1) _ _ _ example_row_lesson _
          example_row_cost assms(2)])
      (simp_all add: example_row_def string_defs)
  moreover have "\<lparr>parent_user_id = gid, subject = Text (ustr ''Math''), attendee_names = [mila],
         lesson_index = Some 1, cost_per_hour = Finite 60,
         start_time = fmt (Text (ustr ''2025-09-04'')) @ [32] @ fmt (Text (ustr ''10:00'')),
         end_time = fmt (Text (ustr ''2025-09-04'')) @ [32] @ fmt (Text (ustr ''11:30''))\<rparr> =
      example_log gid"
    by (simp add: example_log_def fmt_def ustr_def)
  ultimately have 1: "process_row d e m example_row s =
      row_inserted d (Text (ustr ''2025-09-04'')) (example_log gid) s"
    by simp
  have 2: "example_log gid =
           \<lparr>parent_user_id = gid, subject = Text (ustr ''Math''), attendee_names = [ustr ''Mila''],
            lesson_index = Some 1, cost_per_hour = Finite 60,
            start_time = ustr ''2025-09-04'' @ ustr '' '' @ ustr ''10:00'',
            end_time = ustr ''2025-09-04'' @ ustr '' '' @ ustr ''11:30''\<rparr>"
    by (simp add: example_log_def mila_def ustr_def)
  from 1 2 show ?thesis
    by (simp add: row_inserted_def)
qed

theorem example_row_inserts_one_record_witness:
  "map_of (build_student_map example_students) (Text mila) = Some (ustr ''s1'', ustr ''g1'') \<and>
   \<not> db_fault example_env (calls (start example_db)) \<and>
   process_row True example_env (build_student_map example_students) example_row (start example_db) =
     row_inserted True (Text (ustr ''2025-09-04'')) (example_log (ustr ''g1'')) (start example_db) \<and>
   pending (snd (process_row True example_env (build_student_map example_students) example_row
     (start example_db))) = [old_log, example_log (ustr ''g1'')]"
proof -
  have m: "map_of (build_student_map example_students) (Text mila) = Some (ustr ''s1'', ustr ''g1'')"
    by (simp add: build_student_map_def example_students_def mila_def omran_def ustr_def)
  have f: "\<not> db_fault example_env (calls (start example_db))"
    by (simp add: example_env_def no_fault_def)
  note t = example_row_inserts_one_record [OF m f, where d = True]
  from t have a: "process_row True example_env (build_student_map example_students) example_row
      (start example_db) =
     row_inserted True (Text (ustr ''2025-09-04'')) (example_log (ustr ''g1'')) (start example_db)"
    by (rule conjunct1)
  from t have b: "pending (snd (process_row True example_env (build_student_map example_students)
      example_row (start example_db))) = pending (start example_db) @ [example_log (ustr ''g1'')]"
    by blast
  have "pending (start example_db) = [old_log]"
    by (simp add: start_def example_db_def)
  with m f a b show ?thesis
    by simp
qed

text \<open>
  C8. A row whose attendees are \<^verbatim>\<open>Mila,Omran\<close> and whose other fields are in order,
  with a lookup map in which Mila resolves to \<open>(sid, gid)\<close>: exactly one record is
  inserted, its \<open>parent_user_id\<close> is Mila's \<open>gid\<close> and its names are Mila and Omran.
  The map is arbitrary apart from Mila's entry, so whether Omran resolves and to whom
  plays no part: two maps that agree on Mila give the same result.
\<close>

theorem first_attendee_decides:
  assumes "r k_attendees = Some (Text (ustr ''Mila,Omran''))"
    and "map_of m (Text mila) = Some (sid, gid)"
    and "r k_date = Some dt" and "r k_start_time = Some st" and "r k_end_time = Some et"
    and "lesson_index_of r = Inr li"
    and "r k_subject = Some sj"
    and "cost_of r = Inr c"
    and "\<not> db_fault e (calls s)"
  shows "process_row d e m r s =
           row_inserted d dt
             \<lparr>parent_user_id = gid, subject = sj, attendee_names = [mila, omran],
              lesson_index = li, cost_per_hour = c, start_time = fmt dt @ [32] @ fmt st,
              end_time = fmt dt @ [32] @ fmt et\<rparr> s \<and>
         (\<forall>m'. map_of m' (Text mila) = map_of m (Text mila) \<longrightarrow>
            process_row d e m' r s = process_row d e m r s)"
proof -
  have ins: "process_row d e m' r s =
           row_inserted d dt
             \<lparr>parent_user_id = gid, subject = sj, attendee_names = [mila, omran],
              lesson_index = li, cost_per_hour = c, start_time = fmt dt @ [32] @ fmt st,
              end_time = fmt dt @ [32] @ fmt et\<rparr> s"
    if "map_of m' (Text mila) = Some (sid, gid)" for m'
    using names_mila_omran [of r, OF assms(1)] that assms(3-9) by (rule process_row_inserts)
  from ins [of m] assms(2) ins show ?thesis
    by simp
qed

theorem first_attendee_decides_witness:
  "example_row2 k_attendees = Some (Text (ustr ''Mila,Omran'')) \<and>
   map_of mila_only (Text mila) = Some (ustr ''s1'', ustr ''g1'') \<and>
   map_of mila_only (Text omran) = None \<and>
   \<not> db_fault example_env (calls (start example_db)) \<and>
   process_row True example_env mila_only example_row2 (start example_db) =
     row_inserted True (Text (ustr ''2025-09-01''))
       \<lparr>parent_user_id = ustr ''g1'', subject = Text (ustr ''Physics''),
        attendee_names = [mila, omran], lesson_index = Some 1, cost_per_hour = Finite 60,
        start_time = ustr ''2025-09-01 19:00'', end_time = ustr ''2025-09-01 20:00''\<rparr>
       (start example_db) \<and>
   process_row True example_env (build_student_map example_students) example_row2 (start example_db) =
     process_row True example_env mila_only example_row2 (start example_db)"
proof -
  have a: "example_row2 k_attendees = Some (Text (ustr ''Mila,Omran''))"
    by (simp add: example_row2_def string_defs)
  have m: "map_of mila_only (Text mila) = Some (ustr ''s1'', ustr ''g1'')"
    by (simp add: mila_only_def)
  have o: "map_of mila_only (Text omran) = None"
    by (simp add: mila_only_def mila_def omran_def ustr_def)
  have m': "map_of (build_student_map example_students) (Text mila) = map_of mila_only (Text mila)"
    by (simp add: build_student_map_def example_students_def mila_only_def mila_def omran_def ustr_def)
  have dt: "example_row2 k_date = Some (Text (ustr ''2025-09-01''))"
    and st: "example_row2 k_start_time = Some (Text (ustr ''19:00''))"
    and et: "example_row2 k_end_time = Some (Text (ustr ''20:00''))"
    and sj: "example_row2 k_subject = Some (Text (ustr ''Physics''))"
    by (simp_all add: example_row2_def string_defs)
  have li: "lesson_index_of example_row2 = Inr (Some 1)"
    by (simp add: example_row2_def row_defs string_defs)
  have c: "cost_of example_row2 = Inr (Finite 60)"
    by (simp add: example_row2_def row_defs string_defs)
  have f: "\<not> db_fault example_env (calls (start example_db))"
    by (simp add: example_env_def no_fault_def)
  note t = first_attendee_decides [of example_row2, OF a m dt st et li sj c f, where d = True]
  have ts: "fmt (Text (ustr ''2025-09-01'')) @ [32] @ fmt (Text (ustr ''19:00'')) = ustr ''2025-09-01 19:00''"
    "fmt (Text (ustr ''2025-09-01'')) @ [32] @ fmt (Text (ustr ''20:00'')) = ustr ''2025-09-01 20:00''"
    by (simp_all add: fmt_def ustr_def)
  from t have 1: "process_row True example_env mila_only example_row2 (start example_db) =
     row_inserted True (Text (ustr ''2025-09-01''))
       \<lparr>parent_user_id = ustr ''g1'', subject = Text (ustr ''Physics''),
        attendee_names = [mila, omran], lesson_index = Some 1, cost_per_hour = Finite 60,
        start_time = ustr ''2025-09-01 19:00'', end_time = ustr ''2025-09-01 20:00''\<rparr>
       (start example_db)"
    unfolding ts by (rule conjunct1)
  from t m' have 2: "process_row True example_env (build_student_map example_students) example_row2
      (start example_db) = process_row True example_env mila_only example_row2 (start example_db)"
    by blast
  from a m o f 1 2 show ?thesis
    by blast
qed

text \<open>
  C9, as stated, at a lesson index that is an integer literal of 4301 digits: \<^verbatim>\<open>int\<close>
  raises \<^verbatim>\<open>ValueError\<close> for it, so the field is not parsed as that integer and the row
  is skipped with the warning of an invalid row.
\<close>

theorem long_lesson_index_counterexample:
  "py_str_int (10 ^ int_max_str_digits) = 49 # replicate int_max_str_digits 48 \<and>
   int_max_str_digits = 4300 \<and>
   long_literal_row k_lesson_index = Some (Text (py_str_int (10 ^ int_max_str_digits))) \<and>
   py_int (py_str_int (10 ^ int_max_str_digits)) = None \<and>
   process_row True example_env mila_only long_literal_row (start example_db) =
     (None, say (Msg_skip_invalid ValueError) (say (Msg_names [mila]) (start example_db)))"
proof -
  let ?lit = "py_str_int (10 ^ int_max_str_digits)"
  have n: "nat (10 ^ int_max_str_digits) = 10 ^ int_max_str_digits"
    by (simp add: nat_power_eq)
  have 1: "?lit = 49 # replicate int_max_str_digits 48"
    by (simp add: py_str_int_def n digits_of_power10)
  have 2: "long_literal_row k_lesson_index = Some (Text ?lit)"
    by (simp add: long_literal_row_def)
  have 3: "py_int ?lit = None"
    by (rule py_int_long_literal) simp
  have l: "lesson_index_of long_literal_row = Inl ValueError"
    using 2 3 py_str_int_not_Nil [of "10 ^ int_max_str_digits"]
    by (simp add: lesson_index_of_def)
  have a: "attendee_names_of True long_literal_row = Inr [mila]"
    by (simp add: long_literal_row_def example_row_def mila_def attendee_names_of_def getitem_def
        clean_name_def text_defs)
  have m: "map_of mila_only (Text mila) = Some (ustr ''s1'', ustr ''g1'')"
    by (simp add: mila_only_def)
  have "\<exists>st et. times_of long_literal_row = Inr (st, et)"
    by (simp add: long_literal_row_def example_row_def times_of_def getitem_def text_defs)
  then obtain st et where t: "times_of long_literal_row = Inr (st, et)"
    by blast
  have 4: "process_row True example_env mila_only long_literal_row (start example_db) =
     (None, say (Msg_skip_invalid ValueError) (say (Msg_names [mila]) (start example_db)))"
    using a m t l by (simp add: process_row_def row_body_def)
  have k: "int_max_str_digits = 4300"
    by (simp add: int_max_str_digits_def)
  show ?thesis
    by (rule conjI [OF 1 conjI [OF k conjI [OF 2 conjI [OF 3 4]]]])
qed

text \<open>
  C9, amended. A row that would be inserted apart from its lesson index (the first
  attendee resolves, the other fields are present, the cost is a number, the database
  accepts the statement): when \<^verbatim>\<open>lesson_index\<close> is no key of the row, is \<^verbatim>\<open>None\<close> or
  is the empty string, the row is inserted with a null lesson index; when it is a
  non-empty string that \<^verbatim>\<open>int\<close> reads as \<open>n\<close>, the row is inserted with lesson index
  \<open>n\<close>; and this is so for the literal of every integer of at most 4300 digits.
\<close>

theorem lesson_index_optional:
  assumes "attendee_names_of d r = Inr (first # rest)"
    and "map_of m (Text first) = Some (sid, gid)"
    and "r k_date = Some dt" and "r k_start_time = Some st" and "r k_end_time = Some et"
    and "r k_subject = Some sj"
    and "cost_of r = Inr c"
    and "\<not> db_fault e (calls s)"
  shows "(r k_lesson_index = None \<or> r k_lesson_index = Some NoneVal \<or>
            r k_lesson_index = Some (Text []) \<longrightarrow>
          process_row d e m r s =
            row_inserted d dt
              \<lparr>parent_user_id = gid, subject = sj, attendee_names = first # rest,
               lesson_index = None, cost_per_hour = c, start_time = fmt dt @ [32] @ fmt st,
               end_time = fmt dt @ [32] @ fmt et\<rparr> s) \<and>
         (\<forall>t n. r k_lesson_index = Some (Text t) \<and> t \<noteq> [] \<and> py_int t = Some n \<longrightarrow>
          process_row d e m r s =
            row_inserted d dt
              \<lparr>parent_user_id = gid, subject = sj, attendee_names = first # rest,
               lesson_index = Some n, cost_per_hour = c, start_time = fmt dt @ [32] @ fmt st,
               end_time = fmt dt @ [32] @ fmt et\<rparr> s) \<and>
         (\<forall>n. \<bar>n\<bar> < 10 ^ int_max_str_digits \<and> r k_lesson_index = Some (Text (py_str_int n)) \<longrightarrow>
          process_row d e m r s =
            row_inserted d dt
              \<lparr>parent_user_id = gid, subject = sj, attendee_names = first # rest,
               lesson_index = Some n, cost_per_hour = c, start_time = fmt dt @ [32] @ fmt st,
               end_time = fmt dt @ [32] @ fmt et\<rparr> s)"
proof -
  have ins: "process_row d e m r s =
            row_inserted d dt
              \<lparr>parent_user_id = gid, subject = sj, attendee_names = first # rest,
               lesson_index = li, cost_per_hour = c, start_time = fmt dt @ [32] @ fmt st,
               end_time = fmt dt @ [32] @ fmt et\<rparr> s"
    if "lesson_index_of r = Inr li" for li
    using assms(1-5) that assms(6-8) by (rule process_row_inserts)
  have lit: "lesson_index_of r = Inr (Some n)"
    if "\<bar>n\<bar> < 10 ^ int_max_str_digits" and "r k_lesson_index = Some (Text (py_str_int n))" for n
    using that(2) py_str_int_not_Nil py_int_py_str_int [OF that(1)]
    by (rule lesson_index_of_int)
  show ?thesis
    using ins lesson_index_of_absent [of r] lesson_index_of_int [of r] lit
    by blast
qed

theorem lesson_index_optional_witness:
  "attendee_names_of True row_without_lesson = Inr [mila] \<and>
   row_without_lesson k_lesson_index = None \<and>
   map_of mila_only (Text mila) = Some (ustr ''s1'', ustr ''g1'') \<and>
   \<not> db_fault example_env (calls (start example_db)) \<and>
   process_row True example_env mila_only row_without_lesson (start example_db) =
     row_inserted True (Text (ustr ''2025-09-04''))
       ((example_log (ustr ''g1''))\<lparr>lesson_index := None\<rparr>) (start example_db) \<and>
   example_row k_lesson_index = Some (Text (ustr ''1'')) \<and> py_int (ustr ''1'') = Some 1 \<and>
   process_row True example_env mila_only example_row (start example_db) =
     row_inserted True (Text (ustr ''2025-09-04'')) (example_log (ustr ''g1'')) (start example_db)"
proof -
  have a: "attendee_names_of True row_without_lesson = Inr [mila]"
    "attendee_names_of True example_row = Inr [mila]"
    by (simp_all add: row_without_lesson_def example_defs row_defs string_defs)
  have l: "row_without_lesson k_lesson_index = None"
    by (simp add: row_without_lesson_def)
  have l1: "example_row k_lesson_index = Some (Text (ustr ''1''))"
    by (simp add: example_row_def string_defs)
  have i: "py_int (ustr ''1'') = Some 1" "ustr ''1'' \<noteq> []"
    by (simp_all add: string_defs)
  have m: "map_of mila_only (Text mila) = Some (ustr ''s1'', ustr ''g1'')"
    by (simp add: mila_only_def)
  have fields: "row_without_lesson k_date = Some (Text (ustr ''2025-09-04''))"
    "row_without_lesson k_start_time = Some (Text (ustr ''10:00''))"
    "row_without_lesson k_end_time = Some (Text (ustr ''11:30''))"
    "row_without_lesson k_subject = Some (Text (ustr ''Math''))"
    "cost_of row_without_lesson = Inr (Finite 60)"
    by (simp_all add: row_without_lesson_def example_row_def row_defs string_defs)
  have fields1: "example_row k_date = Some (Text (ustr ''2025-09-04''))"
    "example_row k_start_time = Some (Text (ustr ''10:00''))"
    "example_row k_end_time = Some (Text (ustr ''11:30''))"
    "example_row k_subject = Some (Text (ustr ''Math''))"
    "cost_of example_row = Inr (Finite 60)"
    by (simp_all add: example_row_def row_defs string_defs)
  have f: "\<not> db_fault example_env (calls (start example_db))"
    by (simp add: example_env_def no_fault_def)
  have logs: "\<lparr>parent_user_id = ustr ''g1'', subject = Text (ustr ''Math''), attendee_names = [mila],
       lesson_index = li, cost_per_hour = Finite 60,
       start_time = fmt (Text (ustr ''2025-09-04'')) @ [32] @ fmt (Text (ustr ''10:00'')),
       end_time = fmt (Text (ustr ''2025-09-04'')) @ [32] @ fmt (Text (ustr ''11:30''))\<rparr> =
     (example_log (ustr ''g1''))\<lparr>lesson_index := li\<rparr>" for li
    by (simp add: example_log_def fmt_def ustr_def)
  from lesson_index_optional [OF a(1) m fields f] l
  have 1: "process_row True example_env mila_only row_without_lesson (start example_db) =
     row_inserted True (Text (ustr ''2025-09-04''))
       ((example_log (ustr ''g1''))\<lparr>lesson_index := None\<rparr>) (start example_db)"
    unfolding logs by blast
  from lesson_index_optional [OF a(2) m fields1 f] l1 i
  have "process_row True example_env mila_only example_row (start example_db) =
     row_inserted True (Text (ustr ''2025-09-04''))
       ((example_log (ustr ''g1''))\<lparr>lesson_index := Some 1\<rparr>) (start example_db)"
    unfolding logs by blast
  then have 2: "process_row True example_env mila_only example_row (start example_db) =
     row_inserted True (Text (ustr ''2025-09-04'')) (example_log (ustr ''g1'')) (start example_db)"
    by (simp add: example_log_def)
  from a(1) l m f 1 l1 i(1) 2 show ?thesis
    by blast
qed

text \<open>
  C5. When two student records have the same first name and no later record has it,
  the map holds the identifiers of the later one under that name. Building the map
  raises nothing and prints nothing but the two fixed lines (given that the
  \<^verbatim>\<open>SELECT\<close> itself succeeds); the map has one entry for each distinct first name:
  its keys are distinct, they are the first names of the table, and its length, which
  the second line prints, is their number.
\<close>

theorem duplicate_first_name_last_wins:
  assumes "students db = xs @ p # ys @ q # zs"
    and "first_name p = first_name q"
    and "first_name q \<notin> first_name ` set zs"
    and "\<not> db_fault e (calls s)"
  shows "get_student_parent_map e db s =
           (Inr (build_student_map (students db)),
            s\<lparr>calls := Suc (calls s),
              trace := trace s @ [Print Msg_fetching, Execute SelectStudents,
                Print (Msg_found (length (build_student_map (students db))))]\<rparr>) \<and>
         map_of (build_student_map (students db)) (first_name p) = Some (student_id q, user_id q) \<and>
         distinct (map fst (build_student_map (students db))) \<and>
         fst ` set (build_student_map (students db)) = first_name ` set (students db) \<and>
         length (build_student_map (students db)) = card (first_name ` set (students db))"
proof -
  have "get_student_parent_map e db s =
           (Inr (build_student_map (students db)),
            s\<lparr>calls := Suc (calls s),
              trace := trace s @ [Print Msg_fetching, Execute SelectStudents,
                Print (Msg_found (length (build_student_map (students db))))]\<rparr>)"
    using assms(4) by (simp add: get_student_parent_map_def execute_def say_def Let_def)
  moreover have "map_of (build_student_map (students db)) (first_name p) =
      Some (student_id q, user_id q)"
    using build_student_map_last [OF assms(3), of "xs @ p # ys"] assms(1,2) by simp
  ultimately show ?thesis
    using build_student_map_distinct build_student_map_keys build_student_map_length by blast
qed

theorem duplicate_first_name_last_wins_witness:
  "duplicate_students = [] @ hd duplicate_students # [duplicate_students ! 1] @
     duplicate_students ! 2 # [] \<and>
   first_name (hd duplicate_students) = first_name (duplicate_students ! 2) \<and>
   \<not> db_fault example_env (calls (start example_db)) \<and>
   build_student_map duplicate_students =
     [(Text mila, (ustr ''s3'', ustr ''g3'')), (Text omran, (ustr ''s2'', ustr ''g2''))] \<and>
   map_of (build_student_map duplicate_students) (Text mila) = Some (ustr ''s3'', ustr ''g3'') \<and>
   length (build_student_map duplicate_students) = 2 \<and>
   fst (get_student_parent_map example_env (example_db\<lparr>students := duplicate_students\<rparr>)
     (start example_db)) = Inr (build_student_map duplicate_students) \<and>
   trace (snd (get_student_parent_map example_env (example_db\<lparr>students := duplicate_students\<rparr>)
     (start example_db))) = [Print Msg_fetching, Execute SelectStudents, Print (Msg_found 2)]"
proof -
  let ?db = "example_db\<lparr>students := duplicate_students\<rparr>"
  have b: "build_student_map duplicate_students =
     [(Text mila, (ustr ''s3'', ustr ''g3'')), (Text omran, (ustr ''s2'', ustr ''g2''))]"
    by (simp add: build_student_map_def duplicate_students_def mila_def omran_def ustr_def)
  have d: "students ?db = [] @ hd duplicate_students # [duplicate_students ! 1] @
     duplicate_students ! 2 # []"
    by (simp add: duplicate_students_def)
  have n: "first_name (hd duplicate_students) = first_name (duplicate_students ! 2)"
    by (simp add: duplicate_students_def)
  have z: "first_name (duplicate_students ! 2) \<notin> first_name ` set []"
    by simp
  have f: "\<not> db_fault example_env (calls (start example_db))"
    by (simp add: example_env_def no_fault_def)
  note t = duplicate_first_name_last_wins [OF d n z f]
  have s: "students ?db = duplicate_students"
    by simp
  from t have 1: "get_student_parent_map example_env ?db (start example_db) =
           (Inr (build_student_map duplicate_students),
            (start example_db)\<lparr>calls := Suc (calls (start example_db)),
              trace := trace (start example_db) @ [Print Msg_fetching, Execute SelectStudents,
                Print (Msg_found (length (build_student_map duplicate_students)))]\<rparr>)"
    unfolding s by (rule conjunct1)
  from t have 2: "map_of (build_student_map duplicate_students) (first_name (hd duplicate_students)) =
      Some (student_id (duplicate_students ! 2), user_id (duplicate_students ! 2))"
    unfolding s by blast
  have 3: "first_name (hd duplicate_students) = Text mila"
    "student_id (duplicate_students ! 2) = ustr ''s3''" "user_id (duplicate_students ! 2) = ustr ''g3''"
    by (simp_all add: duplicate_students_def)
  have 4: "length (build_student_map duplicate_students) = 2"
    by (simp add: b)
  have 5: "trace (start example_db) = []"
    by (simp add: start_def)
  from d n f b 1 2 3 4 5 show ?thesis
    by simp
qed

text \<open>
  C10, as stated, at a student table that holds a student with the empty first name:
  the row with the empty attendees field is not skipped, it is inserted under that
  student's guardian, and no warning is printed.
\<close>

theorem empty_attendees_counterexample:
  "blank_row k_attendees = Some (Text []) \<and>
   process_row True example_env blank_map blank_row (start example_db) =
     row_inserted True (Text (ustr ''2025-09-04'')) blank_log (start example_db) \<and>
   pending (snd (process_row True example_env blank_map blank_row (start example_db))) =
     [old_log, blank_log] \<and>
   Print (Msg_skip_not_found []) \<notin>
     set (trace (snd (process_row True example_env blank_map blank_row (start example_db))))"
  by (simp add: blank_row_def blank_map_def blank_log_def row_inserted_def example_defs
      row_defs start_def py_split.simps string_defs)

text \<open>
  C10, amended. For every string in the attendees field the list of names is not
  empty, so reading the first name never raises \<^verbatim>\<open>IndexError\<close>. An empty field
  gives the one name \<^verbatim>\<open>''\<close>, which is looked up like any other name: when the map
  has no entry for it, the row is skipped with the warning and nothing else happens.
\<close>

theorem first_attendee_always_exists:
  assumes "r k_attendees = Some (Text a)"
  shows "(\<exists>first rest. attendee_names_of d r = Inr (first # rest)) \<and>
         fst (process_row d e m r s) \<noteq> Some IndexError \<and>
         (a = [] \<longrightarrow> attendee_names_of d r = Inr [[]] \<and>
            (map_of m (Text []) = None \<longrightarrow>
               process_row d e m r s =
                 (None, say (Msg_skip_not_found []) (if d then say (Msg_names [[]]) s else s))))"
proof -
  have n: "attendee_names_of d r = Inr (map (clean_name d) (py_split 44 a))"
    using assms by (rule attendee_names_of_Text)
  have 1: "\<exists>first rest. attendee_names_of d r = Inr (first # rest)"
    using n py_split_not_Nil [of 44 a] by (cases "py_split 44 a") auto
  have 2: "attendee_names_of d r = Inr [[]]" if "a = []"
    using n that by (simp add: clean_name_Nil)
  have 3: "process_row d e m r s =
      (None, say (Msg_skip_not_found []) (if d then say (Msg_names [[]]) s else s))"
    if "a = []" and "map_of m (Text []) = None"
    using 2 [OF that(1)] that(2) by (simp add: process_row_def row_body_def)
  from 1 2 3 process_row_no_IndexError show ?thesis
    by blast
qed

theorem first_attendee_always_exists_witness:
  "blank_row k_attendees = Some (Text []) \<and>
   map_of mila_only (Text []) = None \<and>
   attendee_names_of True blank_row = Inr [[]] \<and>
   fst (process_row True example_env mila_only blank_row (start example_db)) \<noteq> Some IndexError \<and>
   process_row True example_env mila_only blank_row (start example_db) =
     (None, say (Msg_skip_not_found []) (say (Msg_names [[]]) (start example_db)))"
proof -
  have a: "blank_row k_attendees = Some (Text [])"
    by (simp add: blank_row_def)
  have m: "map_of mila_only (Text []) = None"
    by (simp add: mila_only_def mila_def ustr_def)
  from first_attendee_always_exists [of blank_row "[]" True example_env mila_only "start example_db", OF a]
    a m show ?thesis
    by simp
qed

text \<open>
  C4 at a line with fewer fields than the header. The attendees field is \<^verbatim>\<open>None\<close>,
  \<^verbatim>\<open>None.split\<close> raises \<^verbatim>\<open>AttributeError\<close>, which neither the handler of the row
  nor those of \<^verbatim>\<open>main\<close> catch: the run ends there, nothing is committed, and the
  valid row after it is never read (alone, it is inserted). A row whose cost is
  \<^verbatim>\<open>None\<close> leaves the loop with \<^verbatim>\<open>TypeError\<close> in the same way. What does hold is
  in \<open>process_row_exits\<close>, \<open>lookup_miss_skips\<close> and \<open>row_error_skips\<close>: a lookup miss,
  a \<^verbatim>\<open>KeyError\<close> and a \<^verbatim>\<open>ValueError\<close> skip the row and the loop goes on.
\<close>

theorem short_row_aborts_run:
  "outcome (main_destructive (example_env\<lparr>csv_file := Some [short_row, example_row]\<rparr>) example_db) =
     Uncaught AttributeError \<and>
   db_after (main_destructive (example_env\<lparr>csv_file := Some [short_row, example_row]\<rparr>) example_db) =
     example_db \<and>
   outcome (main_additive (example_env\<lparr>csv_file := Some [short_row, example_row]\<rparr>) example_db) =
     Uncaught AttributeError \<and>
   db_after (main_additive (example_env\<lparr>csv_file := Some [short_row, example_row]\<rparr>) example_db) =
     example_db \<and>
   db_after (main_additive (example_env\<lparr>csv_file := Some [example_row]\<rparr>) example_db) =
     example_db\<lparr>tuition_logs := [old_log, example_log (ustr ''g1'')]\<rparr> \<and>
   fst (process_row True example_env mila_only no_cost_row (start example_db)) = Some TypeError"
  by (simp add: short_row_def no_cost_row_def mila_only_def loader_defs row_defs example_defs
      string_defs)

text \<open>
  C6 at the name Mila between curly quotes. The additive loader keeps the quotes, so
  the key is not the key of the plain name and the row is skipped as a lookup miss;
  the destructive loader strips them and inserts the row.
\<close>

theorem curly_quotes_kept_by_additive:
  "clean_name False curly_mila = curly_mila \<and>
   clean_name False mila = mila \<and>
   curly_mila \<noteq> mila \<and>
   clean_name True curly_mila = mila \<and>
   process_row False example_env mila_only curly_row (start example_db) =
     (None, say (Msg_skip_not_found curly_mila) (start example_db)) \<and>
   process_row True example_env mila_only curly_row (start example_db) =
     row_inserted True (Text (ustr ''2025-09-04'')) (example_log (ustr ''g1'')) (start example_db)"
  by (simp add: curly_row_def curly_mila_def mila_only_def row_inserted_def row_defs example_defs
      start_def string_defs)

end
